theory Spec2Isabelle
  imports Complex_Main
begin

section \<open>Shared runtime model\<close>

text \<open>
  Python exceptions are values: a call that can raise returns \<open>py_error + 'a\<close>, with
  \<open>Inl\<close> for the exception.
\<close>

datatype py_error =
    ZeroDivisionError
  | OverflowError
  | TypeError
  | ValueError
  | KeyError
  | IndexError
  | FileNotFoundError
  | AttributeError

datatype log_level = DEBUG | INFO | WARNING | ERROR

text \<open>
  The process state the three modules touch: the working directory, the environment
  variables, the files (path to contents; every directory is taken to exist) and the
  records handed to \<open>logging\<close>. The contents type is a parameter: each module stores
  its own kind of file.
\<close>

record 'c world =
  cwd :: string
  environ :: "string \<rightharpoonup> string"
  files :: "string \<rightharpoonup> 'c"
  log_records :: "(log_level \<times> string) list"

definition logging :: "log_level \<Rightarrow> string \<Rightarrow> 'c world \<Rightarrow> 'c world" where
  "logging lvl msg w = w\<lparr>log_records := log_records w @ [(lvl, msg)]\<rparr>"

text \<open>\<open>os.path.join\<close> (posixpath): an absolute component restarts the path.\<close>

fun os_path_join :: "string \<Rightarrow> string list \<Rightarrow> string" where
  "os_path_join a [] = a"
| "os_path_join a (b # bs) =
     os_path_join
       (if b \<noteq> [] \<and> hd b = CHR ''/'' then b
        else if a = [] \<or> last a = CHR ''/'' then a @ b
        else a @ ''/'' @ b) bs"

subsection \<open>32-bit integer arrays\<close>

text \<open>
  The arrays of \<open>benchmark.py\<close> and \<open>ml.py\<close> have dtype \<open>np.int32\<close>. Storing a Python
  integer outside the int32 range is an \<open>OverflowError\<close> (NumPy 2, and earlier releases
  where the C long has 32 bits); values computed inside the array wrap around.
\<close>

definition int32_ok :: "int \<Rightarrow> bool" where
  "int32_ok x = (- (2 ^ 31) \<le> x \<and> x < 2 ^ 31)"

definition int32_store :: "int \<Rightarrow> py_error + int" where
  "int32_store x = (if int32_ok x then Inr x else Inl OverflowError)"

definition int32_wrap :: "int \<Rightarrow> int" where
  "int32_wrap x = (x + 2 ^ 31) mod 2 ^ 32 - 2 ^ 31"

text \<open>
  \<open>np.arange(start, stop, step, np.int32)\<close> on Python integers: the length is
  \<open>ceil((stop - start) / step)\<close>, at least 0; a zero step divides by zero; the first two
  elements are stored as given, the others are filled in by the array's own arithmetic.
\<close>

definition arange_length :: "int \<Rightarrow> int \<Rightarrow> int \<Rightarrow> nat" where
  "arange_length start stop step = nat (- ((start - stop) div step))"

definition np_arange :: "int \<Rightarrow> int \<Rightarrow> int \<Rightarrow> py_error + int list" where
  "np_arange start stop step =
     (if step = 0 then Inl ZeroDivisionError
      else let n = arange_length start stop step in
        if n = 0 then Inr []
        else if \<not> int32_ok start then Inl OverflowError
        else if n = 1 then Inr [start]
        else if \<not> int32_ok (start + step) then Inl OverflowError
        else Inr (map (\<lambda>i. int32_wrap (start + int i * step)) [0..<n]))"

section \<open>benchmark.py: the parameter grid\<close>

text \<open>One element of the structured dtype \<open>[('cpu', int32), ('memory', int32), ('pods', int32)]\<close>.\<close>

record parameter_point =
  cpu :: int
  memory :: int
  pods :: int

text \<open>The 3-D array \<open>variation_matrix\<close>: its shape and its cells, indexed \<open>[c][m][p]\<close>.\<close>

record variation_matrix =
  shape :: "nat \<times> nat \<times> nat"
  cells :: "parameter_point list list list"

definition matrix_size :: "variation_matrix \<Rightarrow> nat" where
  "matrix_size mtx = (case shape mtx of (a, b, c) \<Rightarrow> a * b * c)"

text \<open>Lines 281 to 287 of \<open>parameter_variation\<close>: the three axes, flipped when \<open>invert\<close>.\<close>

definition variation_axes ::
  "int \<Rightarrow> int \<Rightarrow> int \<Rightarrow> int \<Rightarrow> int \<Rightarrow> int \<Rightarrow> bool \<Rightarrow> py_error + (int list \<times> int list \<times> int list)" where
  "variation_axes cpu_request cpu_limit memory_request memory_limit pods_limit step invert =
     (case np_arange cpu_request cpu_limit step of
        Inl e \<Rightarrow> Inl e
      | Inr cpu_seq \<Rightarrow>
     (case np_arange memory_request memory_limit step of
        Inl e \<Rightarrow> Inl e
      | Inr memory_seq \<Rightarrow>
     (case np_arange 1 (pods_limit + 1) 1 of
        Inl e \<Rightarrow> Inl e
      | Inr pods_seq \<Rightarrow>
          Inr (if invert then (rev cpu_seq, rev memory_seq, rev pods_seq)
               else (cpu_seq, memory_seq, pods_seq)))))"

text \<open>The fill loops (lines 298 to 306): cell \<open>[c][m][p]\<close> is \<open>(cpu[c], memory[m], pods[p])\<close>.\<close>

definition fill_matrix :: "int list \<Rightarrow> int list \<Rightarrow> int list \<Rightarrow> parameter_point list list list" where
  "fill_matrix cpu_seq memory_seq pods_seq =
     map (\<lambda>c. map (\<lambda>m. map (\<lambda>p. \<lparr>cpu = c, memory = m, pods = p\<rparr>) pods_seq) memory_seq) cpu_seq"

text \<open>The data frame \<open>df\<close>: one row per cell in loop order, indexed from 1.\<close>

definition variation_table :: "parameter_point list list list \<Rightarrow> (nat \<times> parameter_point) list" where
  "variation_table cs = (let flat = concat (concat cs) in zip [1..<Suc (length flat)] flat)"

text \<open>
  \<open>parameter_variation\<close>: the matrix is returned; the table is written to
  \<open>data/raw/$LAST_DATA/<pod>_variation.csv\<close> unless that file exists. An unset
  \<open>LAST_DATA\<close> makes \<open>os.path.join\<close> raise \<open>TypeError\<close>.
\<close>

definition parameter_variation ::
  "(nat \<times> parameter_point) list world \<Rightarrow> string \<Rightarrow> int \<Rightarrow> int \<Rightarrow> int \<Rightarrow> int \<Rightarrow> int \<Rightarrow> int \<Rightarrow> bool
   \<Rightarrow> (py_error + variation_matrix) \<times> (nat \<times> parameter_point) list world" where
  "parameter_variation w pod cpu_request cpu_limit memory_request memory_limit pods_limit step invert =
     (case variation_axes cpu_request cpu_limit memory_request memory_limit pods_limit step invert of
        Inl e \<Rightarrow> (Inl e, w)
      | Inr (cpu_seq, memory_seq, pods_seq) \<Rightarrow>
     (case environ w ''LAST_DATA'' of
        None \<Rightarrow> (Inl TypeError, w)
      | Some last_data \<Rightarrow>
          let csv_path = os_path_join (cwd w) [''data'', ''raw'', last_data, pod @ ''_variation.csv''];
              filled = fill_matrix cpu_seq memory_seq pods_seq;
              variation = \<lparr>shape = (length cpu_seq, length memory_seq, length pods_seq), cells = filled\<rparr>
          in (Inr variation,
              if files w csv_path = None
              then w\<lparr>files := (files w)(csv_path \<mapsto> variation_table filled)\<rparr>
              else w)))"

text \<open>A working directory with \<open>LAST_DATA\<close> set and no files, for the concrete runs.\<close>

definition demo_world :: "'c world" where
  "demo_world =
     \<lparr>cwd = ''/app'', environ = [''LAST_DATA'' \<mapsto> ''20210303-230654''], files = Map.empty,
      log_records = []\<rparr>"

text \<open>
  What the specification calls a half-open range: \<open>xs\<close> is \<open>request, request + step, ...\<close>,
  every element is below \<open>limit\<close>, and the next element of the progression is not.
\<close>

definition half_open :: "int \<Rightarrow> int \<Rightarrow> int \<Rightarrow> int list \<Rightarrow> bool" where
  "half_open request limit step xs =
     (xs = map (\<lambda>i. request + int i * step) [0..<length xs]
      \<and> list_all (\<lambda>x. x < limit) xs
      \<and> limit \<le> request + int (length xs) * step)"

section \<open>benchmark.py: the metrics collector\<close>

text \<open>
  The monitoring client is a collaborator: its constructor and its two range queries are
  parameters. A connection is made from the URL read from the environment (which may be
  unset); the custom query is passed as the source passes it, possibly \<open>None\<close>.
\<close>

record ('p, 's) prometheus_api =
  connect :: "string option \<Rightarrow> py_error + 'p"
  custom_query_range :: "'p \<Rightarrow> string option \<Rightarrow> int \<Rightarrow> int \<Rightarrow> string \<Rightarrow> py_error + 's"
  get_metric_range_data :: "'p \<Rightarrow> string \<Rightarrow> int \<Rightarrow> int \<Rightarrow> py_error + 's"

text \<open>
  \<open>int(os.getenv(key))\<close>: \<open>TypeError\<close> when the variable is unset, \<open>ValueError\<close> when
  its text is no integer literal. Python's reading of a literal is the parameter
  \<open>parse_int\<close>.
\<close>

definition getenv_int :: "(string \<Rightarrow> int option) \<Rightarrow> 'c world \<Rightarrow> string \<Rightarrow> py_error + int" where
  "getenv_int parse_int w key =
     (case environ w key of
        None \<Rightarrow> Inl TypeError
      | Some text \<Rightarrow> (case parse_int text of None \<Rightarrow> Inl ValueError | Some n \<Rightarrow> Inr n))"

definition cpu_usage :: string where
  \<open>cpu_usage = ''(sum(rate(container_cpu_usage_seconds_total{namespace="teastore", container!=""}[5m])) by (pod, container) /sum(container_spec_cpu_quota{namespace="teastore", container!=""}/container_spec_cpu_period{namespace="teastore", container!=""}) by (pod, container) )*100''\<close>

definition memory_usage :: string where
  \<open>memory_usage = ''round(max by (pod)(max_over_time(container_memory_usage_bytes{namespace="teastore",pod=~".*" }[5m]))/ on (pod) (max by (pod) (kube_pod_container_resource_limits)) * 100,0.01)''\<close>

text \<open>
  \<open>get_prometheus_metric\<close>. The two readings of the clock are \<open>t0\<close> (for the start of the
  window) and \<open>t1\<close> (the end), in seconds.
\<close>

definition get_prometheus_metric ::
  "('p, 's) prometheus_api \<Rightarrow> (string \<Rightarrow> int option) \<Rightarrow> int \<Rightarrow> int \<Rightarrow> 'c world
   \<Rightarrow> string \<Rightarrow> string \<Rightarrow> bool \<Rightarrow> (py_error + 's) \<times> 'c world" where
  "get_prometheus_metric api parse_int t0 t1 w metric_name mode custom =
     (case connect api (environ w (''PROMETHEUS_'' @ mode @ ''_HOST'')) of
        Inl e \<Rightarrow> (Inl e, w)
      | Inr prom \<Rightarrow>
     (case getenv_int parse_int w ''HH'' of
        Inl e \<Rightarrow> (Inl e, w)
      | Inr hh \<Rightarrow>
     (case getenv_int parse_int w ''MM'' of
        Inl e \<Rightarrow> (Inl e, w)
      | Inr mm \<Rightarrow>
          let start_time = t0 - (3600 * hh + 60 * mm) in
          if custom then
            (if metric_name = ''cpu'' then
               (custom_query_range api prom (Some cpu_usage) start_time t1 ''10'', w)
             else if metric_name = ''memory'' then
               (custom_query_range api prom (Some memory_usage) start_time t1 ''10'', w)
             else
               (custom_query_range api prom None start_time t1 ''10'',
                logging ERROR (''Accepts cpu or memory, but received '' @ metric_name) w))
          else (get_metric_range_data api prom metric_name start_time t1, w))))"

text \<open>
  A client that answers every range query with the request it was sent, so that a run
  shows which query reached the backend.
\<close>

datatype prom_request =
    Custom_query_range string "string option" int int string
  | Metric_range_data string string int int

definition echo_api :: "(string, prom_request) prometheus_api" where
  "echo_api =
     \<lparr>connect = (\<lambda>url. case url of None \<Rightarrow> Inl TypeError | Some u \<Rightarrow> Inr u),
      custom_query_range = (\<lambda>p q s e st. Inr (Custom_query_range p q s e st)),
      get_metric_range_data = (\<lambda>p m s e. Inr (Metric_range_data p m s e))\<rparr>"

definition collector_world :: "unit world" where
  "collector_world =
     \<lparr>cwd = ''/app'',
      environ = [''PROMETHEUS_RESOURCES_HOST'' \<mapsto> ''http://prom:9090'', ''HH'' \<mapsto> ''0'', ''MM'' \<mapsto> ''30''],
      files = Map.empty, log_records = []\<rparr>"

definition parse_demo :: "string \<Rightarrow> int option" where
  "parse_demo text = (if text = ''0'' then Some 0 else if text = ''30'' then Some 30
                      else if text = ''50'' then Some 50 else None)"

section \<open>ml.py: persisting models\<close>

text \<open>
  What \<open>joblib\<close> stores under a name: a fitted estimator, or whatever other Python
  object was passed to \<open>dump\<close> (here a boolean). A file holds the object itself:
  \<open>load\<close> gives back what \<open>dump\<close> was given.
\<close>

datatype 'm pyobj = Estimator 'm | PyBool bool

definition model_path :: "'c world \<Rightarrow> string \<Rightarrow> string" where
  "model_path w name = os_path_join (cwd w) [''data'', ''models'', name @ ''.joblib'']"

definition save_model :: "'m pyobj \<Rightarrow> string \<Rightarrow> 'm pyobj world \<Rightarrow> 'm pyobj world" where
  "save_model model name w = w\<lparr>files := (files w)(model_path w name \<mapsto> model)\<rparr>"

definition load_model :: "'m pyobj world \<Rightarrow> string \<Rightarrow> py_error + 'm pyobj" where
  "load_model w name =
     (case files w (model_path w name) of None \<Rightarrow> Inl FileNotFoundError | Some obj \<Rightarrow> Inr obj)"

text \<open>
  \<open>obj.predict(xs)\<close>: an estimator predicts (by the parameter \<open>predict\<close>); a boolean has
  no such attribute.
\<close>

definition predict_obj ::
  "('m \<Rightarrow> 'x \<Rightarrow> py_error + 'y) \<Rightarrow> 'm pyobj \<Rightarrow> 'x \<Rightarrow> py_error + 'y" where
  "predict_obj predict obj xs =
     (case obj of Estimator m \<Rightarrow> predict m xs | PyBool b \<Rightarrow> Inl AttributeError)"

text \<open>
  The three training functions. Splitting, scaling, fitting and scoring are the library's:
  \<open>fit_linear\<close> stands for lines 32 to 45, \<open>scale_split\<close> for lines 75 to 79,
  \<open>grid_search\<close> for lines 82 to 88, \<open>fit_svr\<close> for lines 90 to 96 and \<open>fit_mlp\<close> for
  lines 111 to 122. What each function passes to \<open>save_model\<close> is the source's.
\<close>

definition linear_regression_model ::
  "('x \<Rightarrow> 'y \<Rightarrow> py_error + 'm) \<Rightarrow> 'x \<Rightarrow> 'y \<Rightarrow> string \<Rightarrow> bool \<Rightarrow> 'm pyobj world
   \<Rightarrow> py_error + 'm pyobj world" where
  "linear_regression_model fit_linear X y name save w =
     (case fit_linear X y of
        Inl e \<Rightarrow> Inl e
      | Inr regression \<Rightarrow> Inr (if save then save_model (Estimator regression) name w else w))"

definition svr_model ::
  "('x \<Rightarrow> 'y \<Rightarrow> py_error + 'd) \<Rightarrow> ('d \<Rightarrow> py_error + 'g) \<Rightarrow> ('d \<Rightarrow> py_error + 'm)
   \<Rightarrow> 'x \<Rightarrow> 'y \<Rightarrow> string \<Rightarrow> bool \<Rightarrow> bool \<Rightarrow> 'm pyobj world \<Rightarrow> py_error + 'm pyobj world" where
  "svr_model scale_split grid_search fit_svr X y name save search w =
     (case scale_split X y of
        Inl e \<Rightarrow> Inl e
      | Inr split \<Rightarrow>
          if search then
            (case grid_search split of Inl e \<Rightarrow> Inl e | Inr found \<Rightarrow> Inr w)
          else
            (case fit_svr split of
               Inl e \<Rightarrow> Inl e
             | Inr svr \<Rightarrow> Inr (if save then save_model (PyBool search) name w else w)))"

definition neural_network_model ::
  "('x \<Rightarrow> 'y \<Rightarrow> py_error + 'm) \<Rightarrow> 'x \<Rightarrow> 'y \<Rightarrow> string \<Rightarrow> bool \<Rightarrow> 'm pyobj world
   \<Rightarrow> py_error + 'm pyobj world" where
  "neural_network_model fit_mlp X y name save w =
     (case fit_mlp X y of
        Inl e \<Rightarrow> Inl e
      | Inr mlp \<Rightarrow> Inr (if save then save_model (Estimator mlp) name w else w))"

text \<open>\<open>get_models\<close>: the three target models, loaded in this order.\<close>

fun load_all :: "'m pyobj world \<Rightarrow> string list \<Rightarrow> py_error + 'm pyobj list" where
  "load_all w [] = Inr []"
| "load_all w (t # ts) =
     (case load_model w t of
        Inl e \<Rightarrow> Inl e
      | Inr model \<Rightarrow> (case load_all w ts of Inl e \<Rightarrow> Inl e | Inr models \<Rightarrow> Inr (model # models)))"

definition get_models :: "'m pyobj world \<Rightarrow> py_error + 'm pyobj list" where
  "get_models w = load_all w [''average response time'', ''cpu usage'', ''memory usage'']"

text \<open>A world with no model files, and a stand-in for the library's fitting.\<close>

definition models_world :: "nat pyobj world" where
  "models_world = \<lparr>cwd = ''/app'', environ = [''STEP'' \<mapsto> ''50''], files = Map.empty, log_records = []\<rparr>"

definition fit_demo :: "nat \<Rightarrow> py_error + nat" where
  "fit_demo d = Inr (Suc d)"

definition split_demo :: "nat \<Rightarrow> nat \<Rightarrow> py_error + nat" where
  "split_demo X y = Inr (X + y)"

section \<open>ml.py: the parameter advisor\<close>

text \<open>A loop that stores element after element and stops at the first exception.\<close>

fun store_all :: "('a \<Rightarrow> py_error + 'b) \<Rightarrow> 'a list \<Rightarrow> py_error + 'b list" where
  "store_all f [] = Inr []"
| "store_all f (x # xs) =
     (case f x of
        Inl e \<Rightarrow> Inl e
      | Inr y \<Rightarrow> (case store_all f xs of Inl e \<Rightarrow> Inl e | Inr ys \<Rightarrow> Inr (y # ys)))"

text \<open>The tuple the loop of lines 192 to 197 computes for index \<open>i\<close>.\<close>

definition window_point :: "int \<Rightarrow> int \<Rightarrow> int \<Rightarrow> int \<Rightarrow> int \<Rightarrow> int \<Rightarrow> parameter_point" where
  "window_point cpu_limit memory_limit number_of_pods window step i =
     (let j = (i mod window) + 1 in
      if i < window
      then \<lparr>cpu = cpu_limit - (j * step), memory = memory_limit - (j * step), pods = number_of_pods - j\<rparr>
      else \<lparr>cpu = cpu_limit + (j * step), memory = memory_limit + (j * step), pods = number_of_pods + j\<rparr>)"

text \<open>Assigning the tuple to an element of the int32 structured array.\<close>

definition store_point :: "parameter_point \<Rightarrow> py_error + parameter_point" where
  "store_point p =
     (if int32_ok (cpu p) \<and> int32_ok (memory p) \<and> int32_ok (pods p) then Inr p
      else Inl OverflowError)"

definition predict_window :: "int \<Rightarrow> int \<Rightarrow> int \<Rightarrow> int \<Rightarrow> int \<Rightarrow> py_error + parameter_point list" where
  "predict_window cpu_limit memory_limit number_of_pods window step =
     store_all (\<lambda>i. store_point (window_point cpu_limit memory_limit number_of_pods window step i))
       [0..2 * window - 1]"

text \<open>
  \<open>predictions[i] = model.predict(...)\<close>: the row has \<open>n\<close> places; a result of that length
  fills it, a result of length 1 is broadcast, any other length is a \<open>ValueError\<close>.
  Predictions are finite floating-point numbers, which are rationals: they are modelled
  as reals.
\<close>

definition assign_row :: "nat \<Rightarrow> real list \<Rightarrow> py_error + real list" where
  "assign_row n ys =
     (if length ys = n then Inr ys
      else if length ys = 1 then Inr (replicate n (hd ys))
      else Inl ValueError)"

text \<open>
  Storing a float in an int32 field (lines 190 and 204): the fraction is cut off, towards
  zero, and the integer must fit.
\<close>

definition py_trunc :: "real \<Rightarrow> int" where
  "py_trunc x = (if 0 \<le> x then \<lfloor>x\<rfloor> else \<lceil>x\<rceil>)"

definition cast_int32 :: "real \<Rightarrow> py_error + int" where
  "cast_int32 x = int32_store (py_trunc x)"

text \<open>Lines 203 and 204: row \<open>i\<close> is \<open>(predictions[0][i], predictions[1][i], predictions[2][i])\<close>.\<close>

definition prediction_array :: "real list \<Rightarrow> real list \<Rightarrow> real list \<Rightarrow> py_error + int list list" where
  "prediction_array p0 p1 p2 =
     store_all (\<lambda>(a, b, c). store_all cast_int32 [a, b, c]) (zip p0 (zip p1 p2))"

datatype criterion = MINIMIZE | MAXIMIZE

text \<open>
  \<open>choose_best\<close>: the ranking is the library's (\<open>TOPSIS().decide\<close> and its
  \<open>best_alternative_\<close>), a parameter that takes the criteria and the matrix.
  \<open>MINIMIZE\<close> and \<open>MAXIMIZE\<close> are the library's \<open>MIN\<close> and \<open>MAX\<close>.
\<close>

definition choose_best ::
  "(criterion list \<Rightarrow> int list list \<Rightarrow> py_error + nat) \<Rightarrow> int list list \<Rightarrow> py_error + nat" where
  "choose_best topsis mtx = topsis [MINIMIZE, MAXIMIZE, MAXIMIZE] mtx"

definition get_best_parameters ::
  "(string \<Rightarrow> int option) \<Rightarrow> ('m \<Rightarrow> parameter_point list \<Rightarrow> py_error + real list)
   \<Rightarrow> (criterion list \<Rightarrow> int list list \<Rightarrow> py_error + nat) \<Rightarrow> 'm pyobj world
   \<Rightarrow> int \<Rightarrow> int \<Rightarrow> int \<Rightarrow> int \<Rightarrow> py_error + parameter_point" where
  "get_best_parameters parse_int predict topsis w cpu_limit memory_limit number_of_pods window =
     (case getenv_int parse_int w ''STEP'' of
        Inl e \<Rightarrow> Inl e
      | Inr step \<Rightarrow>
     (case get_models w of
        Inl e \<Rightarrow> Inl e
      | Inr models \<Rightarrow>
     if window < 0 then Inl ValueError
     else
     (case predict_window cpu_limit memory_limit number_of_pods window step of
        Inl e \<Rightarrow> Inl e
      | Inr candidates \<Rightarrow>
     (case store_all
             (\<lambda>model. case predict_obj predict model candidates of
                         Inl e \<Rightarrow> Inl e
                       | Inr ys \<Rightarrow> assign_row (nat (2 * window)) ys) models of
        Inl e \<Rightarrow> Inl e
      | Inr predictions \<Rightarrow>
     (case predictions of
        [p0, p1, p2] \<Rightarrow>
          (case prediction_array p0 p1 p2 of
             Inl e \<Rightarrow> Inl e
           | Inr mtx \<Rightarrow>
          (case choose_best topsis mtx of
             Inl e \<Rightarrow> Inl e
           | Inr best \<Rightarrow>
               if best < length candidates then Inr (candidates ! best) else Inl IndexError))
      | _ \<Rightarrow> Inl IndexError)))))"

text \<open>
  Lines 198 to 209 of \<open>get_best_parameters\<close>, from the candidates to the point returned:
  every model predicts on the candidates, the predictions are assembled into the
  decision matrix, and the candidate at the index of the best alternative is returned.
\<close>

definition rank_candidates ::
  "('m \<Rightarrow> parameter_point list \<Rightarrow> py_error + real list)
   \<Rightarrow> (criterion list \<Rightarrow> int list list \<Rightarrow> py_error + nat) \<Rightarrow> 'm pyobj list \<Rightarrow> int
   \<Rightarrow> parameter_point list \<Rightarrow> py_error + parameter_point" where
  "rank_candidates predict topsis models window candidates =
     (case store_all
             (\<lambda>model. case predict_obj predict model candidates of
                         Inl e \<Rightarrow> Inl e
                       | Inr ys \<Rightarrow> assign_row (nat (2 * window)) ys) models of
        Inl e \<Rightarrow> Inl e
      | Inr predictions \<Rightarrow>
     (case predictions of
        [p0, p1, p2] \<Rightarrow>
          (case prediction_array p0 p1 p2 of
             Inl e \<Rightarrow> Inl e
           | Inr mtx \<Rightarrow>
          (case choose_best topsis mtx of
             Inl e \<Rightarrow> Inl e
           | Inr best \<Rightarrow>
               if best < length candidates then Inr (candidates ! best) else Inl IndexError))
      | _ \<Rightarrow> Inl IndexError))"

text \<open>The candidates the specification describes: offsets 1 to W down, then 1 to W up.\<close>

definition step_down :: "int \<Rightarrow> int \<Rightarrow> int \<Rightarrow> int \<Rightarrow> int \<Rightarrow> parameter_point" where
  "step_down cpu_limit memory_limit number_of_pods step j =
     \<lparr>cpu = cpu_limit - j * step, memory = memory_limit - j * step, pods = number_of_pods - j\<rparr>"

definition step_up :: "int \<Rightarrow> int \<Rightarrow> int \<Rightarrow> int \<Rightarrow> int \<Rightarrow> parameter_point" where
  "step_up cpu_limit memory_limit number_of_pods step j =
     \<lparr>cpu = cpu_limit + j * step, memory = memory_limit + j * step, pods = number_of_pods + j\<rparr>"

definition neighbours :: "int \<Rightarrow> int \<Rightarrow> int \<Rightarrow> int \<Rightarrow> int \<Rightarrow> parameter_point list" where
  "neighbours cpu_limit memory_limit number_of_pods window step =
     map (step_down cpu_limit memory_limit number_of_pods step) [1..window]
     @ map (step_up cpu_limit memory_limit number_of_pods step) [1..window]"

text \<open>The extreme candidates fit the int32 fields (then all of them do).\<close>

definition window_fits :: "int \<Rightarrow> int \<Rightarrow> int \<Rightarrow> int \<Rightarrow> int \<Rightarrow> bool" where
  "window_fits cpu_limit memory_limit number_of_pods window step =
     (int32_ok (cpu_limit - window * step) \<and> int32_ok (cpu_limit + window * step)
      \<and> int32_ok (memory_limit - window * step) \<and> int32_ok (memory_limit + window * step)
      \<and> int32_ok (number_of_pods - window) \<and> int32_ok (number_of_pods + window))"

text \<open>Three stored estimators, a stand-in predictor and a stand-in ranking, for the concrete runs.\<close>

definition advisor_world :: "nat pyobj world" where
  "advisor_world =
     \<lparr>cwd = ''/app'', environ = [''STEP'' \<mapsto> ''50''],
      files = [''/app/data/models/average response time.joblib'' \<mapsto> Estimator 0,
               ''/app/data/models/cpu usage.joblib'' \<mapsto> Estimator 1,
               ''/app/data/models/memory usage.joblib'' \<mapsto> Estimator 2],
      log_records = []\<rparr>"

definition predict_demo :: "nat \<Rightarrow> parameter_point list \<Rightarrow> py_error + real list" where
  "predict_demo k xs = Inr (map (\<lambda>p. real_of_int (pods p) + real k + 1 / 2) xs)"

definition topsis_demo :: "criterion list \<Rightarrow> int list list \<Rightarrow> py_error + nat" where
  "topsis_demo crit mtx = (if mtx = [] then Inl ValueError else Inr (length mtx - 1))"

text \<open>A stand-in ranking that answers the first row.\<close>

definition topsis_first :: "criterion list \<Rightarrow> int list list \<Rightarrow> py_error + nat" where
  "topsis_first crit mtx = (if mtx = [] then Inl ValueError else Inr 0)"

section \<open>formatting.py: the data filter\<close>

text \<open>
  A data frame: its column labels, and its rows, each an association of labels to cells.
  A cell is a float (of the runtime's float type \<open>'f\<close>, with its own division, which is
  the parameter \<open>fdiv\<close> below) or a string.
\<close>

datatype 'f cell = Num 'f | Str string

record 'f dataframe =
  columns :: "string list"
  rows :: "(string \<times> 'f cell) list list"

fun set_cell :: "string \<Rightarrow> 'a \<Rightarrow> (string \<times> 'a) list \<Rightarrow> (string \<times> 'a) list" where
  "set_cell k v [] = [(k, v)]"
| "set_cell k v ((k', v') # r) = (if k' = k then (k, v) # r else (k', v') # set_cell k v r)"

text \<open>Line 165: the new column is the quotient of two columns, row by row.\<close>

definition divide_row :: "('f \<Rightarrow> 'f \<Rightarrow> 'f) \<Rightarrow> (string \<times> 'f cell) list \<Rightarrow> py_error + (string \<times> 'f cell) list" where
  "divide_row fdiv r =
     (case (map_of r ''response_latency_ms_sum'', map_of r ''response_latency_ms_count'') of
        (Some (Num a), Some (Num b)) \<Rightarrow> Inr (set_cell ''average response time'' (Num (fdiv a b)) r)
      | _ \<Rightarrow> Inl TypeError)"

definition average_response_time :: "('f \<Rightarrow> 'f \<Rightarrow> 'f) \<Rightarrow> 'f dataframe \<Rightarrow> py_error + 'f dataframe" where
  "average_response_time fdiv df =
     (if ''response_latency_ms_sum'' \<in> set (columns df) \<and> ''response_latency_ms_count'' \<in> set (columns df)
      then (case store_all (divide_row fdiv) (rows df) of
              Inl e \<Rightarrow> Inl e
            | Inr rs \<Rightarrow>
                Inr \<lparr>columns = (if ''average response time'' \<in> set (columns df) then columns df
                                else columns df @ [''average response time'']),
                     rows = rs\<rparr>)
      else Inl KeyError)"

text \<open>Line 167: rows of the pod \<open>prometheus\<close> are left out.\<close>

definition without_prometheus :: "'f dataframe \<Rightarrow> py_error + 'f dataframe" where
  "without_prometheus df =
     (if ''pod'' \<in> set (columns df)
      then Inr (df\<lparr>rows := filter (\<lambda>r. map_of r ''pod'' \<noteq> Some (Str ''prometheus'')) (rows df)\<rparr>)
      else Inl KeyError)"

text \<open>Lines 168 to 172: \<open>drop\<close> raises \<open>KeyError\<close> on a label the frame does not have.\<close>

definition raw_columns :: "string list" where
  "raw_columns =
     [''kube_deployment_spec_replicas'', ''kube_pod_container_resource_limits_cpu_cores'',
      ''kube_pod_container_resource_limits_memory_bytes'',
      ''kube_pod_container_resource_requests_cpu_cores'',
      ''kube_pod_container_resource_requests_memory_bytes'', ''response_latency_ms_count'',
      ''response_latency_ms_sum'']"

definition drop_columns :: "string list \<Rightarrow> 'f dataframe \<Rightarrow> py_error + 'f dataframe" where
  "drop_columns names df =
     (if list_all (\<lambda>c. c \<in> set (columns df)) names
      then Inr \<lparr>columns = filter (\<lambda>c. c \<notin> set names) (columns df),
                rows = map (filter (\<lambda>(k, v). k \<notin> set names)) (rows df)\<rparr>
      else Inl KeyError)"

text \<open>Lines 173 to 176: \<open>rename\<close> relabels the columns it finds and ignores the others.\<close>

definition labels :: "(string \<times> string) list" where
  "labels =
     [(''cpu'', ''cpu usage''), (''memory'', ''memory usage''), (''CPU'', ''cpu limit''),
      (''Memory'', ''memory limit''), (''Pods'', ''number of pods''),
      (''container_cpu_cfs_throttled_seconds_total'', ''cpu throttled total'')]"

definition relabel :: "(string \<times> string) list \<Rightarrow> string \<Rightarrow> string" where
  "relabel mapping k = (case map_of mapping k of None \<Rightarrow> k | Some k' \<Rightarrow> k')"

definition rename_columns :: "(string \<times> string) list \<Rightarrow> 'f dataframe \<Rightarrow> 'f dataframe" where
  "rename_columns mapping df =
     \<lparr>columns = map (relabel mapping) (columns df),
      rows = map (map (\<lambda>(k, v). (relabel mapping k, v))) (rows df)\<rparr>"

text \<open>Lines 165 to 176 of \<open>filter_data\<close>, from the merged table to the table returned.\<close>

definition derive_filtered :: "('f \<Rightarrow> 'f \<Rightarrow> 'f) \<Rightarrow> 'f dataframe \<Rightarrow> py_error + 'f dataframe" where
  "derive_filtered fdiv res_data =
     (case average_response_time fdiv res_data of
        Inl e \<Rightarrow> Inl e
      | Inr with_art \<Rightarrow>
     (case without_prometheus with_art of
        Inl e \<Rightarrow> Inl e
      | Inr kept \<Rightarrow>
     (case drop_columns raw_columns kept of
        Inl e \<Rightarrow> Inl e
      | Inr dropped \<Rightarrow> Inr (rename_columns labels dropped))))"

text \<open>\<open>save_data\<close>: the file is written only when the path is free.\<close>

definition filtered_path :: "'c world \<Rightarrow> string \<Rightarrow> string \<Rightarrow> string" where
  "filtered_path w directory mode = os_path_join (cwd w) [''data'', mode, directory @ ''_filtered.csv'']"

definition save_data :: "'c \<Rightarrow> string \<Rightarrow> string \<Rightarrow> 'c world \<Rightarrow> 'c world" where
  "save_data data directory mode w =
     (if files w (filtered_path w directory mode) = None
      then w\<lparr>files := (files w)(filtered_path w directory mode \<mapsto> data)\<rparr>
      else logging WARNING ''Filtered data already exists.'' w)"

text \<open>
  \<open>filter_data\<close>. Reading the raw exports and the library's pivot, mean and merges (lines
  143 to 163) are the parameter \<open>merge_stage\<close>, which reads the world and gives the merged
  table or raises.
\<close>

definition filter_data ::
  "('f dataframe world \<Rightarrow> string \<Rightarrow> py_error + 'f dataframe) \<Rightarrow> ('f \<Rightarrow> 'f \<Rightarrow> 'f) \<Rightarrow> string
   \<Rightarrow> 'f dataframe world \<Rightarrow> (py_error + 'f dataframe) \<times> 'f dataframe world" where
  "filter_data merge_stage fdiv directory w =
     (case merge_stage w directory of
        Inl e \<Rightarrow> (Inl e, w)
      | Inr merged \<Rightarrow>
     (case derive_filtered fdiv merged of
        Inl e \<Rightarrow> (Inl e, w)
      | Inr res_data \<Rightarrow> (Inr res_data, save_data res_data directory ''filtered'' w)))"

text \<open>A merged table of two rows, one of them of the pod \<open>prometheus\<close>.\<close>

definition merged_row :: "string \<Rightarrow> real \<Rightarrow> real \<Rightarrow> (string \<times> real cell) list" where
  "merged_row pod_name latency_sum latency_count =
     [(''Iteration'', Num 1), (''pod'', Str pod_name),
      (''kube_deployment_spec_replicas'', Num 3),
      (''kube_pod_container_resource_limits_cpu_cores'', Num 1),
      (''kube_pod_container_resource_limits_memory_bytes'', Num 1),
      (''kube_pod_container_resource_requests_cpu_cores'', Num 1),
      (''kube_pod_container_resource_requests_memory_bytes'', Num 1),
      (''response_latency_ms_count'', Num latency_count),
      (''response_latency_ms_sum'', Num latency_sum),
      (''cpu'', Num 40), (''CPU'', Num 300)]"

definition merged_demo :: "real dataframe" where
  "merged_demo =
     \<lparr>columns = map fst (merged_row [] 0 0),
      rows = [merged_row ''webui'' 6 4, merged_row ''prometheus'' 1 1]\<rparr>"

text \<open>A world in which the filtered file of the run already exists.\<close>

definition existing_frame :: "real dataframe" where
  "existing_frame = \<lparr>columns = [''Iteration''], rows = [[(''Iteration'', Num 7)]]\<rparr>"

definition filtered_world :: "real dataframe world" where
  "filtered_world =
     \<lparr>cwd = ''/app'', environ = Map.empty,
      files = [''/app/data/filtered/20210303-230654_filtered.csv'' \<mapsto> existing_frame],
      log_records = []\<rparr>"

section \<open>Properties of the grid generator\<close>

lemma int32_wrap_id: "int32_ok x \<Longrightarrow> int32_wrap x = x"
  by (simp add: int32_ok_def int32_wrap_def)

lemma arange_length_same: "arange_length r r step = 0"
  by (simp add: arange_length_def)

lemma np_arange_same: "step \<noteq> 0 \<Longrightarrow> np_arange r r step = Inr []"
  by (simp add: np_arange_def arange_length_same)

lemma arange_elem_below:
  assumes "0 < step" and "i < arange_length start stop step"
  shows "start + int i * step < stop"
proof -
  let ?q = "(start - stop) div step"
  from assms(2) have "int i < - ?q" by (simp add: arange_length_def)
  then have "?q + 1 \<le> - int i" by simp
  then have "(?q + 1) * step \<le> (- int i) * step"
    using assms(1) by (intro mult_right_mono) simp_all
  moreover have "start - stop < (?q + 1) * step"
  proof -
    have "?q * step + (start - stop) mod step = start - stop" by (rule div_mult_mod_eq)
    moreover have "(start - stop) mod step < step" using assms(1) by simp
    moreover have "(?q + 1) * step = ?q * step + step" by (simp add: algebra_simps)
    ultimately show ?thesis by linarith
  qed
  ultimately show ?thesis by (simp add: algebra_simps)
qed

lemma arange_covers:
  assumes "0 < step"
  shows "stop \<le> start + int (arange_length start stop step) * step"
proof -
  let ?q = "(start - stop) div step"
  have "- ?q \<le> int (arange_length start stop step)" by (simp add: arange_length_def)
  then have "(- ?q) * step \<le> int (arange_length start stop step) * step"
    using assms by (intro mult_right_mono) simp_all
  moreover have "?q * step \<le> start - stop"
  proof -
    have "?q * step + (start - stop) mod step = start - stop" by (rule div_mult_mod_eq)
    moreover have "0 \<le> (start - stop) mod step" using assms by simp
    ultimately show ?thesis by linarith
  qed
  ultimately show ?thesis by (simp add: algebra_simps)
qed

lemma arange_elem_ok:
  assumes "0 < step" and "- (2 ^ 31) \<le> start" and "stop \<le> 2 ^ 31"
    and "i < arange_length start stop step"
  shows "int32_ok (start + int i * step)"
proof -
  have "start + int i * step < stop" using assms(1,4) by (rule arange_elem_below)
  moreover have "0 \<le> int i * step" using assms(1) by simp
  ultimately show ?thesis using assms(2,3) by (simp add: int32_ok_def)
qed

lemma np_arange_pos:
  assumes "0 < step" and "- (2 ^ 31) \<le> start" and "stop \<le> 2 ^ 31"
  shows "np_arange start stop step =
         Inr (map (\<lambda>i. start + int i * step) [0..<arange_length start stop step])"
proof -
  let ?n = "arange_length start stop step"
  have wrap: "map (\<lambda>i. int32_wrap (start + int i * step)) [0..<?n]
            = map (\<lambda>i. start + int i * step) [0..<?n]"
    using assms by (simp add: int32_wrap_id arange_elem_ok)
  have first: "0 < ?n \<Longrightarrow> int32_ok start"
    using arange_elem_ok [OF assms, of 0] by simp
  have second: "1 < ?n \<Longrightarrow> int32_ok (start + step)"
    using arange_elem_ok [OF assms, of 1] by simp
  show ?thesis
  proof (cases "?n = 0")
    case True
    then show ?thesis using assms(1) by (simp add: np_arange_def)
  next
    case False
    show ?thesis
    proof (cases "?n = 1")
      case True
      then show ?thesis using assms(1) first by (simp add: np_arange_def)
    next
      case n1: False
      with False have "1 < ?n" by simp
      then show ?thesis using assms(1) wrap first second False n1
        by (simp add: np_arange_def Let_def)
    qed
  qed
qed

lemma np_arange_half_open:
  assumes "0 < step" and "- (2 ^ 31) \<le> start" and "stop \<le> 2 ^ 31"
  shows "\<exists>xs. np_arange start stop step = Inr xs \<and> half_open start stop step xs"
proof -
  let ?n = "arange_length start stop step"
  let ?xs = "map (\<lambda>i. start + int i * step) [0..<?n]"
  have "list_all (\<lambda>x. x < stop) ?xs"
    using assms(1) by (simp add: list_all_iff arange_elem_below)
  moreover have "stop \<le> start + int (length ?xs) * step"
    using arange_covers [OF assms(1), of stop start] by simp
  moreover have "?xs = map (\<lambda>i. start + int i * step) [0..<length ?xs]" by simp
  ultimately have "half_open start stop step ?xs"
    unfolding half_open_def by blast
  then show ?thesis using np_arange_pos [OF assms] by blast
qed

lemma np_arange_eval:
  "np_arange 100 500 100 = Inr [100, 200, 300, 400]"
  "np_arange 1 4 1 = Inr [1, 2, 3]"
  "np_arange 100 100 100 = Inr []"
  by (simp_all add: np_arange_def arange_length_def int32_ok_def int32_wrap_def upt_conv_Cons)

lemma variation_axes_degenerate:
  assumes "variation_axes cpu_request cpu_limit memory_request memory_limit pods_limit step invert
           = Inr (cs, ms, ps)"
    and "cpu_request = cpu_limit \<or> memory_request = memory_limit"
  shows "cs = [] \<or> ms = []"
proof -
  have nz: "step \<noteq> 0"
    using assms(1) by (auto simp: variation_axes_def np_arange_def split: if_splits)
  from assms(2) show ?thesis
  proof
    assume "cpu_request = cpu_limit"
    then have "np_arange cpu_request cpu_limit step = Inr []" using nz by (simp add: np_arange_same)
    then have "cs = []"
      using assms(1) by (auto simp: variation_axes_def split: sum.splits if_splits)
    then show ?thesis by simp
  next
    assume "memory_request = memory_limit"
    then have "np_arange memory_request memory_limit step = Inr []" using nz by (simp add: np_arange_same)
    then have "ms = []"
      using assms(1) by (auto simp: variation_axes_def split: sum.splits if_splits)
    then show ?thesis by simp
  qed
qed

text \<open>
  C1 (as amended). When a range is degenerate (request == limit) and the step is not
  zero, the axis sequence of that range is empty, and a call of \<open>parameter_variation\<close>
  with a degenerate CPU or memory range that returns gives an empty grid (size 0).
\<close>

theorem degenerate_range_empty_grid:
  assumes "step \<noteq> 0"
    and "cpu_request = cpu_limit \<or> memory_request = memory_limit"
    and "fst (parameter_variation w pod cpu_request cpu_limit memory_request memory_limit
                pods_limit step invert) = Inr mtx"
  shows "np_arange cpu_limit cpu_limit step = Inr []
         \<and> np_arange memory_limit memory_limit step = Inr []
         \<and> matrix_size mtx = 0"
proof -
  obtain cs ms ps where
    axes: "variation_axes cpu_request cpu_limit memory_request memory_limit pods_limit step invert
           = Inr (cs, ms, ps)"
    and mtx: "shape mtx = (length cs, length ms, length ps)"
    using assms(3)
    by (auto simp: parameter_variation_def Let_def split: sum.splits option.splits prod.splits)
  have "cs = [] \<or> ms = []" using axes assms(2) by (rule variation_axes_degenerate)
  then have "matrix_size mtx = 0" using mtx by (auto simp: matrix_size_def)
  then show ?thesis using assms(1) by (simp add: np_arange_same)
qed

theorem degenerate_range_empty_grid_witness:
  "(100::int) \<noteq> 0
   \<and> fst (parameter_variation demo_world ''webui'' 100 100 100 500 3 100 False)
       = Inr \<lparr>shape = (0, 4, 3), cells = []\<rparr>
   \<and> np_arange 100 100 100 = Inr []
   \<and> np_arange 500 500 100 = Inr []
   \<and> matrix_size \<lparr>shape = (0, 4, 3), cells = []\<rparr> = 0"
proof -
  have run: "fst (parameter_variation demo_world ''webui'' 100 100 100 500 3 100 False)
             = Inr \<lparr>shape = (0, 4, 3), cells = []\<rparr>"
    by (simp add: parameter_variation_def variation_axes_def np_arange_eval demo_world_def
        fill_matrix_def)
  have "(100::int) \<noteq> 0" by simp
  from degenerate_range_empty_grid [OF this _ run] run show ?thesis by simp
qed

theorem degenerate_range_counterexample:
  "np_arange 100 100 100 = Inr []
   \<and> length ([] :: int list) \<noteq> 1
   \<and> fst (parameter_variation demo_world ''webui'' 100 100 100 500 3 100 False)
       = Inr \<lparr>shape = (0, 4, 3), cells = []\<rparr>
   \<and> matrix_size \<lparr>shape = (0, 4, 3), cells = []\<rparr> = 0"
  by (simp add: parameter_variation_def variation_axes_def np_arange_eval demo_world_def
      fill_matrix_def matrix_size_def)

text \<open>
  C4. For a positive step and bounds in the int32 range (and \<open>LAST_DATA\<close> set, so that
  the call returns), the grid \<open>parameter_variation\<close> returns is built on three half-open
  axes: request, request + step, ..., every element strictly below the limit and the
  limit itself excluded; with \<open>invert\<close> the same sequences are used in reverse. For
  request 100, limit 500 and step 100 the axis is exactly 100, 200, 300, 400.
\<close>

theorem parameter_variation_axes_half_open:
  assumes "0 < step"
    and "int32_ok cpu_request" and "int32_ok cpu_limit"
    and "int32_ok memory_request" and "int32_ok memory_limit"
    and "int32_ok pods_limit"
    and "environ w ''LAST_DATA'' = Some last_data"
  shows "\<exists>cs ms ps.
            half_open cpu_request cpu_limit step cs
          \<and> half_open memory_request memory_limit step ms
          \<and> half_open 1 (pods_limit + 1) 1 ps
          \<and> fst (parameter_variation w pod cpu_request cpu_limit memory_request memory_limit
                    pods_limit step False)
              = Inr \<lparr>shape = (length cs, length ms, length ps),
                      cells = map (\<lambda>c. map (\<lambda>m. map (\<lambda>p. \<lparr>cpu = c, memory = m, pods = p\<rparr>) ps) ms) cs\<rparr>
          \<and> fst (parameter_variation w pod cpu_request cpu_limit memory_request memory_limit
                    pods_limit step True)
              = Inr \<lparr>shape = (length cs, length ms, length ps),
                      cells = map (\<lambda>c. map (\<lambda>m. map (\<lambda>p. \<lparr>cpu = c, memory = m, pods = p\<rparr>) (rev ps))
                                     (rev ms)) (rev cs)\<rparr>
          \<and> (cpu_request = 100 \<and> cpu_limit = 500 \<and> step = 100 \<longrightarrow> cs = [100, 200, 300, 400])
          \<and> (memory_request = 100 \<and> memory_limit = 500 \<and> step = 100
               \<longrightarrow> ms = [100, 200, 300, 400])"
proof -
  obtain cs where cs: "np_arange cpu_request cpu_limit step = Inr cs"
      "half_open cpu_request cpu_limit step cs"
    using np_arange_half_open [of step cpu_request cpu_limit] assms(1-3)
    by (auto simp: int32_ok_def)
  obtain ms where ms: "np_arange memory_request memory_limit step = Inr ms"
      "half_open memory_request memory_limit step ms"
    using np_arange_half_open [of step memory_request memory_limit] assms(1,4,5)
    by (auto simp: int32_ok_def)
  obtain ps where ps: "np_arange 1 (pods_limit + 1) 1 = Inr ps"
      "half_open 1 (pods_limit + 1) 1 ps"
    using np_arange_half_open [of 1 1 "pods_limit + 1"] assms(6)
    by (auto simp: int32_ok_def)
  have axes: "variation_axes cpu_request cpu_limit memory_request memory_limit pods_limit step False
          = Inr (cs, ms, ps)"
    "variation_axes cpu_request cpu_limit memory_request memory_limit pods_limit step True
          = Inr (rev cs, rev ms, rev ps)"
    using cs(1) ms(1) ps(1) by (simp_all add: variation_axes_def)
  have plain: "fst (parameter_variation w pod cpu_request cpu_limit memory_request memory_limit
                    pods_limit step False)
              = Inr \<lparr>shape = (length cs, length ms, length ps),
                      cells = map (\<lambda>c. map (\<lambda>m. map (\<lambda>p. \<lparr>cpu = c, memory = m, pods = p\<rparr>) ps) ms) cs\<rparr>"
    using axes(1) assms(7) by (simp add: parameter_variation_def Let_def fill_matrix_def)
  have inverted: "fst (parameter_variation w pod cpu_request cpu_limit memory_request memory_limit
                    pods_limit step True)
              = Inr \<lparr>shape = (length cs, length ms, length ps),
                      cells = map (\<lambda>c. map (\<lambda>m. map (\<lambda>p. \<lparr>cpu = c, memory = m, pods = p\<rparr>) (rev ps))
                                     (rev ms)) (rev cs)\<rparr>"
    using axes(2) assms(7) by (simp add: parameter_variation_def Let_def fill_matrix_def)
  have c100: "cs = [100, 200, 300, 400]" if "cpu_request = 100 \<and> cpu_limit = 500 \<and> step = 100"
    using that cs(1) by (simp add: np_arange_eval)
  have m100: "ms = [100, 200, 300, 400]"
    if "memory_request = 100 \<and> memory_limit = 500 \<and> step = 100"
    using that ms(1) by (simp add: np_arange_eval)
  from cs(2) ms(2) ps(2) plain inverted c100 m100 show ?thesis by blast
qed

theorem parameter_variation_axes_half_open_witness:
  "(0::int) < 100 \<and> int32_ok 100 \<and> int32_ok 500 \<and> int32_ok 200 \<and> int32_ok 1
   \<and> environ (demo_world :: (nat \<times> parameter_point) list world) ''LAST_DATA''
       = Some ''20210303-230654''
   \<and> fst (parameter_variation demo_world ''webui'' 100 500 100 200 1 100 False)
       = Inr \<lparr>shape = (4, 1, 1),
               cells = [[[\<lparr>cpu = 100, memory = 100, pods = 1\<rparr>]], [[\<lparr>cpu = 200, memory = 100, pods = 1\<rparr>]],
                        [[\<lparr>cpu = 300, memory = 100, pods = 1\<rparr>]], [[\<lparr>cpu = 400, memory = 100, pods = 1\<rparr>]]]\<rparr>
   \<and> fst (parameter_variation demo_world ''webui'' 100 500 100 200 1 100 True)
       = Inr \<lparr>shape = (4, 1, 1),
               cells = [[[\<lparr>cpu = 400, memory = 100, pods = 1\<rparr>]], [[\<lparr>cpu = 300, memory = 100, pods = 1\<rparr>]],
                        [[\<lparr>cpu = 200, memory = 100, pods = 1\<rparr>]], [[\<lparr>cpu = 100, memory = 100, pods = 1\<rparr>]]]\<rparr>
   \<and> half_open 100 500 100 [100, 200, 300, 400]"
proof -
  have ok: "int32_ok 100" "int32_ok 500" "int32_ok 200" "int32_ok 1"
    by (simp_all add: int32_ok_def)
  have pos: "(0::int) < 100" by simp
  have env: "environ (demo_world :: (nat \<times> parameter_point) list world) ''LAST_DATA''
             = Some ''20210303-230654''"
    by (simp add: demo_world_def)
  have small: "np_arange 100 200 100 = Inr [100]" "np_arange 1 2 1 = Inr [1]"
    by (simp_all add: np_arange_def arange_length_def int32_ok_def)
  have run: "fst (parameter_variation demo_world ''webui'' 100 500 100 200 1 100 False)
       = Inr \<lparr>shape = (4, 1, 1),
               cells = [[[\<lparr>cpu = 100, memory = 100, pods = 1\<rparr>]], [[\<lparr>cpu = 200, memory = 100, pods = 1\<rparr>]],
                        [[\<lparr>cpu = 300, memory = 100, pods = 1\<rparr>]], [[\<lparr>cpu = 400, memory = 100, pods = 1\<rparr>]]]\<rparr>"
    by (simp add: parameter_variation_def variation_axes_def np_arange_eval small demo_world_def
        fill_matrix_def Let_def eval_nat_numeral)
  have inv: "fst (parameter_variation demo_world ''webui'' 100 500 100 200 1 100 True)
       = Inr \<lparr>shape = (4, 1, 1),
               cells = [[[\<lparr>cpu = 400, memory = 100, pods = 1\<rparr>]], [[\<lparr>cpu = 300, memory = 100, pods = 1\<rparr>]],
                        [[\<lparr>cpu = 200, memory = 100, pods = 1\<rparr>]], [[\<lparr>cpu = 100, memory = 100, pods = 1\<rparr>]]]\<rparr>"
    by (simp add: parameter_variation_def variation_axes_def np_arange_eval small demo_world_def
        fill_matrix_def Let_def eval_nat_numeral)
  from parameter_variation_axes_half_open [OF pos ok(1) ok(2) ok(1) ok(3) ok(4) env]
  have "half_open 100 500 100 [100, 200, 300, 400]" by auto
  then show ?thesis using ok pos env run inv by simp
qed

section \<open>Properties of the parameter advisor\<close>

lemma store_all_Inr:
  "(\<And>x. x \<in> set xs \<Longrightarrow> f x = Inr (g x)) \<Longrightarrow> store_all f xs = Inr (map g xs)"
  by (induction xs) simp_all

lemma map_shift_upto: "map (\<lambda>i. f (i + k)) [a..b] = map f [a + k..b + k]"
proof (induction a b rule: upto.induct)
  case (1 i j)
  show ?case
  proof (cases "i \<le> j")
    case True
    then have "[i..j] = i # [i + 1..j]" and "[i + k..j + k] = (i + k) # [i + 1 + k..j + k]"
      by (simp_all add: upto_rec1 add.commute add.left_commute)
    then show ?thesis using 1 True by simp
  next
    case False
    then show ?thesis by simp
  qed
qed

lemma window_points_down:
  assumes "0 < window"
  shows "map (window_point c m n window s) [0..window - 1] = map (step_down c m n s) [1..window]"
proof -
  have "map (window_point c m n window s) [0..window - 1]
        = map (\<lambda>i. step_down c m n s (i + 1)) [0..window - 1]"
    by (rule map_cong) (auto simp: window_point_def step_down_def Let_def)
  also have "\<dots> = map (step_down c m n s) [0 + 1..window - 1 + 1]"
    by (rule map_shift_upto)
  finally show ?thesis by simp
qed

lemma window_points_up:
  assumes "0 < window"
  shows "map (window_point c m n window s) [window..2 * window - 1] = map (step_up c m n s) [1..window]"
proof -
  have "map (window_point c m n window s) [window..2 * window - 1]
        = map (\<lambda>i. step_up c m n s (i + (1 - window))) [window..2 * window - 1]"
  proof (rule map_cong)
    fix i assume "i \<in> set [window..2 * window - 1]"
    then have i: "window \<le> i" "i < 2 * window" by auto
    then have "i mod window = i - window"
      by (metis add.commute diff_add_cancel le_add_same_cancel1 mod_add_self2 mod_pos_pos_trivial
          diff_ge_0_iff_ge diff_less_eq mult_2)
    then have "i mod window + 1 = i + (1 - window)" by simp
    then show "window_point c m n window s i = step_up c m n s (i + (1 - window))"
      using i by (simp add: window_point_def step_up_def Let_def)
  qed simp
  also have "\<dots> = map (step_up c m n s) [window + (1 - window)..2 * window - 1 + (1 - window)]"
    by (rule map_shift_upto)
  finally show ?thesis by simp
qed

lemma window_points:
  assumes "0 \<le> window"
  shows "map (window_point c m n window s) [0..2 * window - 1] = neighbours c m n window s"
proof (cases "window = 0")
  case True
  then show ?thesis by (simp add: neighbours_def)
next
  case False
  with assms have pos: "0 < window" by simp
  then have "[0..2 * window - 1] = [0..window - 1] @ [window..2 * window - 1]"
    using upto_split1 [of 0 window "2 * window - 1"] by simp
  then show ?thesis
    using window_points_down [OF pos] window_points_up [OF pos] by (simp add: neighbours_def)
qed

lemma between_ok:
  assumes "int32_ok (x - w * s)" and "int32_ok (x + w * s)" and "0 \<le> j" and "j \<le> w"
  shows "int32_ok (x - j * s) \<and> int32_ok (x + j * s)"
proof (cases "0 \<le> s")
  case True
  then have "j * s \<le> w * s" and "0 \<le> j * s"
    using assms(3,4) by (simp_all add: mult_right_mono)
  then show ?thesis using assms(1,2) by (simp add: int32_ok_def)
next
  case False
  then have "w * s \<le> j * s" and "j * s \<le> 0"
    using assms(3,4) by (simp_all add: mult_right_mono_neg mult_nonneg_nonpos)
  then show ?thesis using assms(1,2) by (simp add: int32_ok_def)
qed

lemma neighbours_stored:
  assumes "window_fits c m n window s" and "p \<in> set (neighbours c m n window s)"
  shows "store_point p = Inr p"
proof -
  from assms(2) obtain j where j: "1 \<le> j" "j \<le> window"
    and p: "p = step_down c m n s j \<or> p = step_up c m n s j"
    by (auto simp: neighbours_def)
  have "int32_ok (c - j * s) \<and> int32_ok (c + j * s)"
    using assms(1) j by (intro between_ok [of c window s j]) (simp_all add: window_fits_def)
  moreover have "int32_ok (m - j * s) \<and> int32_ok (m + j * s)"
    using assms(1) j by (intro between_ok [of m window s j]) (simp_all add: window_fits_def)
  moreover have "int32_ok (n - j * 1) \<and> int32_ok (n + j * 1)"
    using assms(1) j by (intro between_ok [of n window 1 j]) (simp_all add: window_fits_def)
  ultimately show ?thesis using p by (auto simp: store_point_def step_down_def step_up_def)
qed

lemma store_all_map: "store_all f (map h xs) = store_all (\<lambda>x. f (h x)) xs"
  by (induction xs) (simp_all split: sum.splits)

lemma predict_window_neighbours:
  assumes "0 \<le> window" and "window_fits c m n window s"
  shows "predict_window c m n window s = Inr (neighbours c m n window s)"
proof -
  have "predict_window c m n window s
        = store_all store_point (map (window_point c m n window s) [0..2 * window - 1])"
    by (simp add: predict_window_def store_all_map)
  also have "\<dots> = store_all store_point (neighbours c m n window s)"
    using assms(1) by (simp add: window_points)
  also have "\<dots> = Inr (map (\<lambda>p. p) (neighbours c m n window s))"
    using assms(2) by (intro store_all_Inr) (rule neighbours_stored)
  finally show ?thesis by simp
qed

lemma length_neighbours: "0 \<le> window \<Longrightarrow> length (neighbours c m n window s) = nat (2 * window)"
  by (simp add: neighbours_def)

text \<open>What \<open>get_best_parameters\<close> returns is one of the candidates of its window.\<close>

lemma get_best_parameters_in_window:
  assumes "get_best_parameters parse_int predict topsis w c m n window = Inr p"
  shows "\<exists>step cands. getenv_int parse_int w ''STEP'' = Inr step
           \<and> predict_window c m n window step = Inr cands \<and> p \<in> set cands"
  using assms
  by (auto simp: get_best_parameters_def split: sum.splits if_splits list.splits)

lemma upto_1_2: "[1..2] = [1, 2::int]"
  by (simp add: upto.simps)

lemma upto_0_1: "[0..1] = [0, 1::int]" "[0..3] = [0, 1, 2, 3::int]"
  by (simp_all add: upto.simps)

text \<open>
  With the step read, the three models loaded, a window that is not negative and
  candidates that fit the int32 fields, \<open>get_best_parameters\<close> is lines 198 to 209 run on
  the list of neighbours: the predictor of every model is applied to exactly that list,
  and the point returned is taken from it.
\<close>

lemma get_best_parameters_candidates:
  assumes "getenv_int parse_int w ''STEP'' = Inr step"
    and "load_model w ''average response time'' = Inr m0"
    and "load_model w ''cpu usage'' = Inr m1"
    and "load_model w ''memory usage'' = Inr m2"
    and "0 \<le> window" and "window_fits c m n window step"
  shows "get_best_parameters parse_int predict topsis w c m n window
         = rank_candidates predict topsis [m0, m1, m2] window (neighbours c m n window step)"
proof -
  have models: "get_models w = Inr [m0, m1, m2]"
    using assms(2-4) by (simp add: get_models_def)
  have cands: "predict_window c m n window step = Inr (neighbours c m n window step)"
    using assms(5,6) by (rule predict_window_neighbours)
  show ?thesis
    using assms(1,5) models cands
    by (simp add: get_best_parameters_def rank_candidates_def)
qed

text \<open>
  C2. For a call of \<open>get_best_parameters\<close> with window \<open>W \<ge> 0\<close> and step \<open>s\<close> (the step
  read from \<open>STEP\<close>, the three models loaded, the candidates fitting the int32 fields),
  the candidates that the models predict on and that the result is taken from are
  exactly \<open>2W\<close> points: offsets \<open>j = 1..W\<close> down (\<open>cpu - j*s\<close>, \<open>memory - j*s\<close>,
  \<open>pods - j\<close>), then offsets \<open>j = 1..W\<close> up. For a window of 2, a step of 50 and a CPU
  limit of 300 the candidate CPU values are 250, 200, 350 and 400.
\<close>

theorem get_best_parameters_window_candidates:
  assumes "getenv_int parse_int w ''STEP'' = Inr s"
    and "load_model w ''average response time'' = Inr m0"
    and "load_model w ''cpu usage'' = Inr m1"
    and "load_model w ''memory usage'' = Inr m2"
    and "0 \<le> window" and "window_fits c m n window s"
  shows "get_best_parameters parse_int predict topsis w c m n window
           = rank_candidates predict topsis [m0, m1, m2] window
               (map (step_down c m n s) [1..window] @ map (step_up c m n s) [1..window])
         \<and> length (map (step_down c m n s) [1..window] @ map (step_up c m n s) [1..window])
           = nat (2 * window)
         \<and> (c = 300 \<and> s = 50 \<and> window = 2
              \<longrightarrow> map cpu (map (step_down c m n s) [1..window] @ map (step_up c m n s) [1..window])
                  = [250, 200, 350, 400])"
proof -
  have "get_best_parameters parse_int predict topsis w c m n window
        = rank_candidates predict topsis [m0, m1, m2] window (neighbours c m n window s)"
    using assms by (rule get_best_parameters_candidates)
  moreover have "length (neighbours c m n window s) = nat (2 * window)"
    using assms(5) by (rule length_neighbours)
  moreover have "map cpu (neighbours c m n window s) = [250, 200, 350, 400]"
    if "c = 300 \<and> s = 50 \<and> window = 2"
    using that by (simp add: neighbours_def step_down_def step_up_def upto_1_2)
  ultimately show ?thesis by (simp add: neighbours_def)
qed

theorem get_best_parameters_window_candidates_witness:
  "getenv_int parse_demo advisor_world ''STEP'' = Inr 50
   \<and> (0::int) \<le> 2 \<and> window_fits 300 1000 3 2 50
   \<and> map (step_down 300 1000 3 50) [1..2] @ map (step_up 300 1000 3 50) [1..2]
       = [\<lparr>cpu = 250, memory = 950, pods = 2\<rparr>, \<lparr>cpu = 200, memory = 900, pods = 1\<rparr>,
          \<lparr>cpu = 350, memory = 1050, pods = 4\<rparr>, \<lparr>cpu = 400, memory = 1100, pods = 5\<rparr>]
   \<and> get_best_parameters parse_demo predict_demo topsis_first advisor_world 300 1000 3 2
       = rank_candidates predict_demo topsis_first [Estimator 0, Estimator 1, Estimator 2] 2
           [\<lparr>cpu = 250, memory = 950, pods = 2\<rparr>, \<lparr>cpu = 200, memory = 900, pods = 1\<rparr>,
            \<lparr>cpu = 350, memory = 1050, pods = 4\<rparr>, \<lparr>cpu = 400, memory = 1100, pods = 5\<rparr>]
   \<and> get_best_parameters parse_demo predict_demo topsis_first advisor_world 300 1000 3 2
       = Inr \<lparr>cpu = 250, memory = 950, pods = 2\<rparr>"
proof -
  have step: "getenv_int parse_demo advisor_world ''STEP'' = Inr 50"
    by (simp add: getenv_int_def advisor_world_def parse_demo_def)
  have m0: "load_model advisor_world ''average response time'' = Inr (Estimator 0)"
    and m1: "load_model advisor_world ''cpu usage'' = Inr (Estimator 1)"
    and m2: "load_model advisor_world ''memory usage'' = Inr (Estimator 2)"
    by (simp_all add: load_model_def model_path_def advisor_world_def)
  have fits: "window_fits 300 1000 3 2 50" by (simp add: window_fits_def int32_ok_def)
  have win: "(0::int) \<le> 2" by simp
  have cands: "map (step_down 300 1000 3 50) [1..2] @ map (step_up 300 1000 3 50) [1..2]
       = [\<lparr>cpu = 250, memory = 950, pods = 2\<rparr>, \<lparr>cpu = 200, memory = 900, pods = 1\<rparr>,
          \<lparr>cpu = 350, memory = 1050, pods = 4\<rparr>, \<lparr>cpu = 400, memory = 1100, pods = 5\<rparr>]"
    by (simp add: step_down_def step_up_def upto_1_2)
  have ranked: "rank_candidates predict_demo topsis_first [Estimator 0, Estimator 1, Estimator 2] 2
           [\<lparr>cpu = 250, memory = 950, pods = 2\<rparr>, \<lparr>cpu = 200, memory = 900, pods = 1\<rparr>,
            \<lparr>cpu = 350, memory = 1050, pods = 4\<rparr>, \<lparr>cpu = 400, memory = 1100, pods = 5\<rparr>]
        = Inr \<lparr>cpu = 250, memory = 950, pods = 2\<rparr>"
    by (simp add: rank_candidates_def predict_obj_def predict_demo_def assign_row_def
        prediction_array_def cast_int32_def int32_store_def int32_ok_def py_trunc_def
        choose_best_def topsis_first_def)
  from get_best_parameters_window_candidates
         [where predict = predict_demo and topsis = topsis_first, OF step m0 m1 m2 win fits]
  have "get_best_parameters parse_demo predict_demo topsis_first advisor_world 300 1000 3 2
       = rank_candidates predict_demo topsis_first [Estimator 0, Estimator 1, Estimator 2] 2
           (map (step_down 300 1000 3 50) [1..2] @ map (step_up 300 1000 3 50) [1..2])"
    by simp
  then show ?thesis using step fits cands ranked by simp
qed

text \<open>
  C10 (as amended). For a call of \<open>get_best_parameters\<close> with current replica count \<open>n\<close>
  and a window \<open>W \<ge> 1\<close> (the step read from \<open>STEP\<close>, the three models loaded, the
  candidates fitting the int32 fields), the candidate replica counts are exactly
  \<open>n - 1, ..., n - W\<close> and \<open>n + 1, ..., n + W\<close>, with no lower bound: whenever \<open>n \<le> W\<close>
  some candidate has a replica count of 0 or less. (With \<open>W = 0\<close> there is no candidate.)
\<close>

theorem get_best_parameters_replicas_unbounded:
  assumes "getenv_int parse_int w ''STEP'' = Inr s"
    and "load_model w ''average response time'' = Inr m0"
    and "load_model w ''cpu usage'' = Inr m1"
    and "load_model w ''memory usage'' = Inr m2"
    and "1 \<le> window" and "window_fits c m n window s"
  shows "get_best_parameters parse_int predict topsis w c m n window
           = rank_candidates predict topsis [m0, m1, m2] window (neighbours c m n window s)
         \<and> map pods (neighbours c m n window s)
           = map (\<lambda>j. n - j) [1..window] @ map (\<lambda>j. n + j) [1..window]
         \<and> (n \<le> window \<longrightarrow> list_ex (\<lambda>p. pods p \<le> 0) (neighbours c m n window s))"
proof -
  let ?cands = "neighbours c m n window s"
  have run: "get_best_parameters parse_int predict topsis w c m n window
             = rank_candidates predict topsis [m0, m1, m2] window ?cands"
    using assms by (intro get_best_parameters_candidates) simp_all
  have counts: "map pods ?cands = map (\<lambda>j. n - j) [1..window] @ map (\<lambda>j. n + j) [1..window]"
    by (simp add: neighbours_def step_down_def step_up_def comp_def)
  have low: "list_ex (\<lambda>p. pods p \<le> 0) ?cands" if "n \<le> window"
  proof -
    define j where "j = max 1 n"
    have "1 \<le> j" and "j \<le> window" and "n - j \<le> 0"
      using that assms(5) by (simp_all add: j_def)
    then have "step_down c m n s j \<in> set ?cands"
      by (simp add: neighbours_def)
    moreover have "pods (step_down c m n s j) \<le> 0"
      using \<open>n - j \<le> 0\<close> by (simp add: step_down_def)
    ultimately show ?thesis unfolding list_ex_iff by blast
  qed
  from run counts low show ?thesis by blast
qed

theorem get_best_parameters_replicas_unbounded_witness:
  "getenv_int parse_demo advisor_world ''STEP'' = Inr 50
   \<and> (1::int) \<le> 1 \<and> window_fits 300 1000 1 1 50
   \<and> map pods (neighbours 300 1000 1 1 50) = [1 - 1, 1 + 1]
   \<and> list_ex (\<lambda>p. pods p \<le> 0) (neighbours 300 1000 1 1 50)
   \<and> get_best_parameters parse_demo predict_demo topsis_first advisor_world 300 1000 1 1
       = Inr \<lparr>cpu = 250, memory = 950, pods = 0\<rparr>"
proof -
  have step: "getenv_int parse_demo advisor_world ''STEP'' = Inr 50"
    by (simp add: getenv_int_def advisor_world_def parse_demo_def)
  have m0: "load_model advisor_world ''average response time'' = Inr (Estimator 0)"
    and m1: "load_model advisor_world ''cpu usage'' = Inr (Estimator 1)"
    and m2: "load_model advisor_world ''memory usage'' = Inr (Estimator 2)"
    by (simp_all add: load_model_def model_path_def advisor_world_def)
  have fits: "window_fits 300 1000 1 1 50" by (simp add: window_fits_def int32_ok_def)
  have win: "(1::int) \<le> 1" by simp
  have nb: "neighbours 300 1000 1 1 50
            = [\<lparr>cpu = 250, memory = 950, pods = 0\<rparr>, \<lparr>cpu = 350, memory = 1050, pods = 2\<rparr>]"
    by (simp add: neighbours_def step_down_def step_up_def)
  have ranked: "rank_candidates predict_demo topsis_first [Estimator 0, Estimator 1, Estimator 2] 1
           [\<lparr>cpu = 250, memory = 950, pods = 0\<rparr>, \<lparr>cpu = 350, memory = 1050, pods = 2\<rparr>]
        = Inr \<lparr>cpu = 250, memory = 950, pods = 0\<rparr>"
    by (simp add: rank_candidates_def predict_obj_def predict_demo_def assign_row_def
        prediction_array_def cast_int32_def int32_store_def int32_ok_def py_trunc_def
        choose_best_def topsis_first_def)
  from get_best_parameters_replicas_unbounded
         [where predict = predict_demo and topsis = topsis_first, OF step m0 m1 m2 win fits]
  show ?thesis using step fits nb ranked by simp
qed

theorem get_best_parameters_replicas_counterexample:
  "(0::int) \<le> 0
   \<and> predict_window 300 1000 0 0 50 = Inr []
   \<and> get_best_parameters parse_demo predict_demo topsis_first advisor_world 300 1000 0 0
       = rank_candidates predict_demo topsis_first [Estimator 0, Estimator 1, Estimator 2] 0 []
   \<and> \<not> list_ex (\<lambda>p. pods p \<le> 0) ([] :: parameter_point list)"
  by (simp add: get_best_parameters_def rank_candidates_def getenv_int_def advisor_world_def
      parse_demo_def get_models_def load_model_def model_path_def predict_window_def)

text \<open>
  C3. The decision matrix has one row per candidate, with the predictions of the models
  for the average response time, the CPU usage and the memory usage in this order; it
  is ranked with the directions minimise, maximise, maximise, and the advisor returns
  the candidate at the index the ranking gives as best alternative.
\<close>

theorem advisor_returns_top_ranked:
  assumes "getenv_int parse_int w ''STEP'' = Inr step"
    and "load_model w ''average response time'' = Inr m0"
    and "load_model w ''cpu usage'' = Inr m1"
    and "load_model w ''memory usage'' = Inr m2"
    and "0 \<le> window" and "window_fits c m n window step"
    and "predict_obj predict m0 (neighbours c m n window step) = Inr p0"
    and "predict_obj predict m1 (neighbours c m n window step) = Inr p1"
    and "predict_obj predict m2 (neighbours c m n window step) = Inr p2"
    and "length p0 = nat (2 * window)" and "length p1 = nat (2 * window)"
    and "length p2 = nat (2 * window)"
    and "prediction_array p0 p1 p2 = Inr mtx"
    and "topsis [MINIMIZE, MAXIMIZE, MAXIMIZE] mtx = Inr best"
    and "best < nat (2 * window)"
  shows "get_best_parameters parse_int predict topsis w c m n window
         = Inr (neighbours c m n window step ! best)"
proof -
  have models: "get_models w = Inr [m0, m1, m2]"
    using assms(2-4) by (simp add: get_models_def)
  have cands: "predict_window c m n window step = Inr (neighbours c m n window step)"
    using assms(5,6) by (rule predict_window_neighbours)
  have preds: "store_all
             (\<lambda>model. case predict_obj predict model (neighbours c m n window step) of
                         Inl e \<Rightarrow> Inl e
                       | Inr ys \<Rightarrow> assign_row (nat (2 * window)) ys) [m0, m1, m2]
        = Inr [p0, p1, p2]"
    using assms(7-12) by (simp add: assign_row_def)
  have best: "best < length (neighbours c m n window step)"
    using assms(5,15) by (simp add: length_neighbours)
  show ?thesis
    using assms(1,5,13,14) models cands preds best
    by (simp add: get_best_parameters_def choose_best_def)
qed

theorem advisor_returns_top_ranked_witness:
  "get_best_parameters parse_demo predict_demo topsis_demo advisor_world 300 1000 3 1
   = Inr (neighbours 300 1000 3 1 50 ! 1)
   \<and> neighbours 300 1000 3 1 50 ! 1 = \<lparr>cpu = 350, memory = 1050, pods = 4\<rparr>
   \<and> prediction_array [5 / 2, 9 / 2] [7 / 2, 11 / 2] [9 / 2, 13 / 2] = Inr [[2, 3, 4], [4, 5, 6]]
   \<and> topsis_demo [MINIMIZE, MAXIMIZE, MAXIMIZE] [[2, 3, 4], [4, 5, 6]] = Inr 1"
proof -
  have nb: "neighbours 300 1000 3 1 50
            = [\<lparr>cpu = 250, memory = 950, pods = 2\<rparr>, \<lparr>cpu = 350, memory = 1050, pods = 4\<rparr>]"
    by (simp add: neighbours_def step_down_def step_up_def)
  have step: "getenv_int parse_demo advisor_world ''STEP'' = Inr 50"
    by (simp add: getenv_int_def advisor_world_def parse_demo_def)
  have m0: "load_model advisor_world ''average response time'' = Inr (Estimator 0)"
    and m1: "load_model advisor_world ''cpu usage'' = Inr (Estimator 1)"
    and m2: "load_model advisor_world ''memory usage'' = Inr (Estimator 2)"
    by (simp_all add: load_model_def model_path_def advisor_world_def)
  have fits: "window_fits 300 1000 3 1 50" by (simp add: window_fits_def int32_ok_def)
  have p0: "predict_obj predict_demo (Estimator 0) (neighbours 300 1000 3 1 50) = Inr [5 / 2, 9 / 2]"
    and p1: "predict_obj predict_demo (Estimator 1) (neighbours 300 1000 3 1 50) = Inr [7 / 2, 11 / 2]"
    and p2: "predict_obj predict_demo (Estimator 2) (neighbours 300 1000 3 1 50) = Inr [9 / 2, 13 / 2]"
    by (simp_all add: nb predict_obj_def predict_demo_def)
  have mtx: "prediction_array [5 / 2, 9 / 2] [7 / 2, 11 / 2] [9 / 2, 13 / 2] = Inr [[2, 3, 4], [4, 5, 6]]"
    by (simp add: prediction_array_def cast_int32_def int32_store_def int32_ok_def py_trunc_def)
  have best: "topsis_demo [MINIMIZE, MAXIMIZE, MAXIMIZE] [[2, 3, 4], [4, 5, 6]] = Inr 1"
    by (simp add: topsis_demo_def)
  have "get_best_parameters parse_demo predict_demo topsis_demo advisor_world 300 1000 3 1
        = Inr (neighbours 300 1000 3 1 50 ! 1)"
    by (rule advisor_returns_top_ranked
          [where topsis = topsis_demo and predict = predict_demo and best = 1,
           OF step m0 m1 m2 _ fits p0 p1 p2 _ _ _ mtx best]) simp_all
  then show ?thesis using nb mtx best by simp
qed

lemma py_trunc_of_int: "py_trunc (real_of_int k) = k"
  by (simp add: py_trunc_def)

lemma store_all_list_all2:
  "store_all f xs = Inr ys \<Longrightarrow> list_all2 (\<lambda>x y. f x = Inr y) xs ys"
  by (induction xs arbitrary: ys) (auto split: sum.splits)

lemma store_row:
  "store_all cast_int32 [a, b, c]
   = (if int32_ok (py_trunc a) \<and> int32_ok (py_trunc b) \<and> int32_ok (py_trunc c)
      then Inr [py_trunc a, py_trunc b, py_trunc c] else Inl OverflowError)"
  by (simp add: cast_int32_def int32_store_def)

lemma row_truncated:
  assumes "store_all cast_int32 [a, b, c] = Inr row"
  shows "row = [py_trunc a, py_trunc b, py_trunc c] \<and> list_all int32_ok row"
  using assms unfolding store_row by (auto split: if_splits)

lemma prediction_array_truncated:
  assumes "prediction_array p0 p1 p2 = Inr mtx"
  shows "mtx = map (\<lambda>(a, b, c). [py_trunc a, py_trunc b, py_trunc c]) (zip p0 (zip p1 p2))"
proof -
  have "list_all2 (\<lambda>x y. (case x of (a, b, c) \<Rightarrow> store_all cast_int32 [a, b, c]) = Inr y)
          (zip p0 (zip p1 p2)) mtx"
    using assms unfolding prediction_array_def by (rule store_all_list_all2)
  then have "list_all2 (\<lambda>x y. y = (case x of (a, b, c) \<Rightarrow> [py_trunc a, py_trunc b, py_trunc c]))
          (zip p0 (zip p1 p2)) mtx"
    by (rule list_all2_mono) (auto simp del: store_all.simps dest: row_truncated)
  then show ?thesis
    by (induction rule: list_all2_induct) simp_all
qed

lemma prediction_array_of_truncated:
  "prediction_array (map (\<lambda>y. real_of_int (py_trunc y)) p0)
     (map (\<lambda>y. real_of_int (py_trunc y)) p1) (map (\<lambda>y. real_of_int (py_trunc y)) p2)
   = prediction_array p0 p1 p2"
proof -
  let ?t = "\<lambda>y. real_of_int (py_trunc y)"
  have "zip (map ?t p0) (zip (map ?t p1) (map ?t p2))
        = map (\<lambda>(a, b, c). (?t a, ?t b, ?t c)) (zip p0 (zip p1 p2))"
    by (simp add: zip_map_map split_def)
  moreover have "store_all cast_int32 [?t a, ?t b, ?t c] = store_all cast_int32 [a, b, c]"
    for a b c unfolding store_row by (simp add: py_trunc_of_int)
  ultimately show ?thesis
    by (simp add: prediction_array_def store_all_map split_def del: store_all.simps)
qed

lemma assign_row_truncated:
  "assign_row k (map f ys) = map_sum id (map f) (assign_row k ys)"
  by (cases ys) (simp_all add: assign_row_def)

lemma predict_obj_truncated:
  "predict_obj (\<lambda>model xs. map_sum id (map f) (predict model xs)) obj xs
   = map_sum id (map f) (predict_obj predict obj xs)"
  by (cases obj) (simp_all add: predict_obj_def)

lemma store_all_map_sum:
  assumes "\<And>x. f' x = map_sum id g (f x)"
  shows "store_all f' xs = map_sum id (map g) (store_all f xs)"
  by (induction xs) (simp_all add: assms split: sum.splits)

lemma predictions_truncated:
  "store_all
     (\<lambda>model. case predict_obj (\<lambda>model xs. map_sum id (map f) (predict model xs)) model cands of
                 Inl e \<Rightarrow> Inl e
               | Inr ys \<Rightarrow> assign_row k ys) models
   = map_sum id (map (map f))
       (store_all
          (\<lambda>model. case predict_obj predict model cands of
                      Inl e \<Rightarrow> Inl e
                    | Inr ys \<Rightarrow> assign_row k ys) models)"
  by (rule store_all_map_sum)
     (simp add: predict_obj_truncated assign_row_truncated split: sum.splits)

lemma prediction_array_fits:
  assumes "list_all (\<lambda>y. int32_ok (py_trunc y)) (p0 @ p1 @ p2)"
  shows "prediction_array p0 p1 p2
         = Inr (map (\<lambda>(x, y, z). [py_trunc x, py_trunc y, py_trunc z]) (zip p0 (zip p1 p2)))"
  unfolding prediction_array_def
proof (rule store_all_Inr)
  fix t assume mem: "t \<in> set (zip p0 (zip p1 p2))"
  obtain x y z where t: "t = (x, y, z)" by (cases t)
  from mem have "x \<in> set p0" and "(y, z) \<in> set (zip p1 p2)"
    unfolding t by (auto dest: set_zip_leftD set_zip_rightD)
  then have "x \<in> set p0" and "y \<in> set p1" and "z \<in> set p2"
    by (auto dest: set_zip_leftD set_zip_rightD)
  then have "int32_ok (py_trunc x)" and "int32_ok (py_trunc y)" and "int32_ok (py_trunc z)"
    using assms by (simp_all add: list_all_iff)
  then show "(case t of (a, b, c) \<Rightarrow> store_all cast_int32 [a, b, c])
             = Inr (case t of (x, y, z) \<Rightarrow> [py_trunc x, py_trunc y, py_trunc z])"
    unfolding t by (simp add: store_row del: store_all.simps)
qed

text \<open>
  C9. In a call of \<open>get_best_parameters\<close> (the step read from \<open>STEP\<close>, the three models
  loaded, a window \<open>W \<ge> 0\<close>, candidates fitting the int32 fields, every model giving
  \<open>2W\<close> finite predictions whose integer parts fit 32 bits), the matrix handed to the
  ranking is the matrix of the predictions cut to integers, towards zero: the ranking
  sees the truncated values and not the raw predictions, and replacing every prediction
  by its truncation does not change what \<open>get_best_parameters\<close> returns.
\<close>

theorem get_best_parameters_ranks_truncated:
  assumes "getenv_int parse_int w ''STEP'' = Inr step"
    and "load_model w ''average response time'' = Inr m0"
    and "load_model w ''cpu usage'' = Inr m1"
    and "load_model w ''memory usage'' = Inr m2"
    and "0 \<le> window" and "window_fits c m n window step"
    and "predict_obj predict m0 (neighbours c m n window step) = Inr p0"
    and "predict_obj predict m1 (neighbours c m n window step) = Inr p1"
    and "predict_obj predict m2 (neighbours c m n window step) = Inr p2"
    and "length p0 = nat (2 * window)" and "length p1 = nat (2 * window)"
    and "length p2 = nat (2 * window)"
    and "list_all (\<lambda>y. int32_ok (py_trunc y)) (p0 @ p1 @ p2)"
  shows "get_best_parameters parse_int predict topsis w c m n window
           = (case topsis [MINIMIZE, MAXIMIZE, MAXIMIZE]
                     (map (\<lambda>(x, y, z). [py_trunc x, py_trunc y, py_trunc z]) (zip p0 (zip p1 p2))) of
                Inl e \<Rightarrow> Inl e
              | Inr best \<Rightarrow>
                  if best < nat (2 * window) then Inr (neighbours c m n window step ! best)
                  else Inl IndexError)
         \<and> get_best_parameters parse_int
              (\<lambda>model xs. map_sum id (map (\<lambda>y. real_of_int (py_trunc y))) (predict model xs))
              topsis w c m n window
           = get_best_parameters parse_int predict topsis w c m n window"
proof -
  let ?t = "\<lambda>y. real_of_int (py_trunc y)"
  have preds: "store_all
             (\<lambda>model. case predict_obj predict model (neighbours c m n window step) of
                         Inl e \<Rightarrow> Inl e
                       | Inr ys \<Rightarrow> assign_row (nat (2 * window)) ys) [m0, m1, m2]
        = Inr [p0, p1, p2]"
    using assms(7-12) by (simp add: assign_row_def)
  have mtx: "prediction_array p0 p1 p2
             = Inr (map (\<lambda>(x, y, z). [py_trunc x, py_trunc y, py_trunc z]) (zip p0 (zip p1 p2)))"
    using assms(13) by (rule prediction_array_fits)
  have len: "length (neighbours c m n window step) = nat (2 * window)"
    using assms(5) by (rule length_neighbours)
  have "get_best_parameters parse_int predict topsis w c m n window
        = rank_candidates predict topsis [m0, m1, m2] window (neighbours c m n window step)"
    using assms(1-6) by (rule get_best_parameters_candidates)
  then have ranked: "get_best_parameters parse_int predict topsis w c m n window
           = (case topsis [MINIMIZE, MAXIMIZE, MAXIMIZE]
                     (map (\<lambda>(x, y, z). [py_trunc x, py_trunc y, py_trunc z]) (zip p0 (zip p1 p2))) of
                Inl e \<Rightarrow> Inl e
              | Inr best \<Rightarrow>
                  if best < nat (2 * window) then Inr (neighbours c m n window step ! best)
                  else Inl IndexError)"
    using preds mtx len
    by (simp add: rank_candidates_def choose_best_def del: store_all.simps cong: sum.case_cong)
  have same: "(case map_sum id (map (map ?t)) r of
                 Inl e \<Rightarrow> Inl e
               | Inr predictions \<Rightarrow>
                   (case predictions of
                      [q0, q1, q2] \<Rightarrow>
                        (case prediction_array q0 q1 q2 of Inl e \<Rightarrow> Inl e | Inr mtx \<Rightarrow> k mtx)
                    | _ \<Rightarrow> Inl IndexError))
              = (case r of
                 Inl e \<Rightarrow> Inl e
               | Inr predictions \<Rightarrow>
                   (case predictions of
                      [q0, q1, q2] \<Rightarrow>
                        (case prediction_array q0 q1 q2 of Inl e \<Rightarrow> Inl e | Inr mtx \<Rightarrow> k mtx)
                    | _ \<Rightarrow> Inl IndexError))"
    for r :: "py_error + real list list" and k :: "int list list \<Rightarrow> py_error + parameter_point"
    by (auto simp: prediction_array_of_truncated split: sum.splits list.splits)
  have invariant: "get_best_parameters parse_int
        (\<lambda>model xs. map_sum id (map ?t) (predict model xs)) topsis w c m n window
     = get_best_parameters parse_int predict topsis w c m n window"
    unfolding get_best_parameters_def predictions_truncated
    by (simp add: same split: sum.splits)
  from ranked invariant show ?thesis by simp
qed

theorem get_best_parameters_ranks_truncated_witness:
  "getenv_int parse_demo advisor_world ''STEP'' = Inr 50
   \<and> (0::int) \<le> 1 \<and> window_fits 300 1000 3 1 50
   \<and> predict_obj predict_demo (Estimator 0) (neighbours 300 1000 3 1 50) = Inr [5 / 2, 9 / 2]
   \<and> predict_obj predict_demo (Estimator 1) (neighbours 300 1000 3 1 50) = Inr [7 / 2, 11 / 2]
   \<and> predict_obj predict_demo (Estimator 2) (neighbours 300 1000 3 1 50) = Inr [9 / 2, 13 / 2]
   \<and> map (\<lambda>(x, y, z). [py_trunc x, py_trunc y, py_trunc z])
        (zip [5 / 2, 9 / 2] (zip [7 / 2, 11 / 2] [9 / 2, 13 / 2]))
       = [[2, 3, 4], [4, 5, 6]]
   \<and> get_best_parameters parse_demo predict_demo topsis_demo advisor_world 300 1000 3 1
       = (case topsis_demo [MINIMIZE, MAXIMIZE, MAXIMIZE] [[2, 3, 4], [4, 5, 6]] of
            Inl e \<Rightarrow> Inl e
          | Inr best \<Rightarrow>
              if best < 2 then Inr (neighbours 300 1000 3 1 50 ! best) else Inl IndexError)
   \<and> get_best_parameters parse_demo predict_demo topsis_demo advisor_world 300 1000 3 1
       = Inr \<lparr>cpu = 350, memory = 1050, pods = 4\<rparr>"
proof -
  have nb: "neighbours 300 1000 3 1 50
            = [\<lparr>cpu = 250, memory = 950, pods = 2\<rparr>, \<lparr>cpu = 350, memory = 1050, pods = 4\<rparr>]"
    by (simp add: neighbours_def step_down_def step_up_def)
  have step: "getenv_int parse_demo advisor_world ''STEP'' = Inr 50"
    by (simp add: getenv_int_def advisor_world_def parse_demo_def)
  have m0: "load_model advisor_world ''average response time'' = Inr (Estimator 0)"
    and m1: "load_model advisor_world ''cpu usage'' = Inr (Estimator 1)"
    and m2: "load_model advisor_world ''memory usage'' = Inr (Estimator 2)"
    by (simp_all add: load_model_def model_path_def advisor_world_def)
  have fits: "window_fits 300 1000 3 1 50" by (simp add: window_fits_def int32_ok_def)
  have win: "(0::int) \<le> 1" by simp
  have p0: "predict_obj predict_demo (Estimator 0) (neighbours 300 1000 3 1 50) = Inr [5 / 2, 9 / 2]"
    and p1: "predict_obj predict_demo (Estimator 1) (neighbours 300 1000 3 1 50) = Inr [7 / 2, 11 / 2]"
    and p2: "predict_obj predict_demo (Estimator 2) (neighbours 300 1000 3 1 50) = Inr [9 / 2, 13 / 2]"
    by (simp_all add: nb predict_obj_def predict_demo_def)
  have cut: "map (\<lambda>(x, y, z). [py_trunc x, py_trunc y, py_trunc z])
        (zip [5 / 2, 9 / 2] (zip [7 / 2, 11 / 2] [9 / 2, 13 / 2 :: real]))
       = [[2, 3, 4], [4, 5, 6]]"
    by (simp add: py_trunc_def)
  have ok: "list_all (\<lambda>y. int32_ok (py_trunc y))
              ([5 / 2, 9 / 2] @ [7 / 2, 11 / 2] @ [9 / 2, 13 / 2 :: real])"
    by (simp add: py_trunc_def int32_ok_def)
  from get_best_parameters_ranks_truncated
         [where topsis = topsis_demo and predict = predict_demo,
          OF step m0 m1 m2 win fits p0 p1 p2 _ _ _ ok]
  have run: "get_best_parameters parse_demo predict_demo topsis_demo advisor_world 300 1000 3 1
       = (case topsis_demo [MINIMIZE, MAXIMIZE, MAXIMIZE] [[2, 3, 4], [4, 5, 6]] of
            Inl e \<Rightarrow> Inl e
          | Inr best \<Rightarrow>
              if best < 2 then Inr (neighbours 300 1000 3 1 50 ! best) else Inl IndexError)"
    by (simp add: py_trunc_def cong: sum.case_cong)
  then have "get_best_parameters parse_demo predict_demo topsis_demo advisor_world 300 1000 3 1
       = Inr \<lparr>cpu = 350, memory = 1050, pods = 4\<rparr>"
    by (simp add: topsis_demo_def nb)
  then show ?thesis using step fits p0 p1 p2 cut run by simp
qed

section \<open>Properties of the metrics collector\<close>

lemma unknown_metric_null_query:
  assumes "connect api (environ w (''PROMETHEUS_'' @ mode @ ''_HOST'')) = Inr prom"
    and "getenv_int parse_int w ''HH'' = Inr hh" and "getenv_int parse_int w ''MM'' = Inr mm"
    and "metric_name \<noteq> ''cpu''" and "metric_name \<noteq> ''memory''"
  shows "get_prometheus_metric api parse_int t0 t1 w metric_name mode True
         = (custom_query_range api prom None (t0 - (3600 * hh + 60 * mm)) t1 ''10'',
            logging ERROR (''Accepts cpu or memory, but received '' @ metric_name) w)"
  using assms by (simp add: get_prometheus_metric_def)

text \<open>
  C5. For the custom metric name \<open>disk\<close> the error is logged, and the range query is
  sent all the same, with no query text (\<open>None\<close>): the query is not skipped.
\<close>

theorem unknown_custom_metric_still_queried:
  "get_prometheus_metric echo_api parse_demo 100000 100005 collector_world ''disk'' ''RESOURCES'' True
   = (Inr (Custom_query_range ''http://prom:9090'' None 98200 100005 ''10''),
      logging ERROR ''Accepts cpu or memory, but received disk'' collector_world)"
  by (simp add: get_prometheus_metric_def echo_api_def collector_world_def getenv_int_def
      parse_demo_def)

section \<open>Properties of model persistence\<close>

lemma save_load_model: "load_model (save_model obj name w) name = Inr obj"
  by (simp add: load_model_def save_model_def model_path_def)

lemma linear_model_roundtrip:
  assumes "linear_regression_model fit_linear X y name True w = Inr w'"
  shows "\<exists>regression. fit_linear X y = Inr regression \<and> load_model w' name = Inr (Estimator regression)"
  using assms by (auto simp: linear_regression_model_def save_load_model split: sum.splits)

lemma neural_model_roundtrip:
  assumes "neural_network_model fit_mlp X y name True w = Inr w'"
  shows "\<exists>mlp. fit_mlp X y = Inr mlp \<and> load_model w' name = Inr (Estimator mlp)"
  using assms by (auto simp: neural_network_model_def save_load_model split: sum.splits)

lemma svr_model_saves_flag:
  assumes "svr_model scale_split grid_search fit_svr X y name True False w = Inr w'"
  shows "load_model w' name = Inr (PyBool False)"
  using assms by (auto simp: svr_model_def save_load_model split: sum.splits)

lemma svr_model_search_saves_nothing:
  assumes "svr_model scale_split grid_search fit_svr X y name save True w = Inr w'"
  shows "w' = w"
  using assms by (auto simp: svr_model_def split: sum.splits)

text \<open>
  C6. With the search switched off, \<open>svr_model\<close> saves its \<open>search\<close> argument (the
  boolean \<open>False\<close>) and not the fitted estimator: what \<open>load_model\<close> gives back cannot
  predict. \<open>linear_regression_model\<close> saves the estimator it fitted, which is loaded
  back unchanged.
\<close>

theorem svr_model_roundtrip_fails:
  "svr_model split_demo fit_demo fit_demo 1 2 ''cpu usage'' True False models_world
     = Inr (save_model (PyBool False) ''cpu usage'' models_world)
   \<and> load_model (save_model (PyBool False) ''cpu usage'' models_world) ''cpu usage''
     = Inr (PyBool False)
   \<and> predict_obj predict_demo (PyBool False) [\<lparr>cpu = 300, memory = 1000, pods = 3\<rparr>]
     = Inl AttributeError
   \<and> linear_regression_model split_demo 1 2 ''cpu usage'' True models_world
     = Inr (save_model (Estimator 3) ''cpu usage'' models_world)
   \<and> load_model (save_model (Estimator 3) ''cpu usage'' models_world) ''cpu usage''
     = Inr (Estimator 3)"
  by (simp add: svr_model_def linear_regression_model_def split_demo_def fit_demo_def
      save_load_model predict_obj_def numeral_3_eq_3)

section \<open>Properties of the data filter\<close>

lemma map_of_set_cell: "map_of (set_cell k v r) k = Some v"
  by (induction r) auto

lemma map_of_filter_keys:
  "k \<notin> S \<Longrightarrow> map_of (filter (\<lambda>(k', v). k' \<notin> S) r) k = map_of r k"
  by (induction r) auto

lemma map_of_relabelled:
  assumes "\<And>k'. ren k' = k \<longleftrightarrow> k' = k"
  shows "map_of (map (\<lambda>(k', v). (ren k', v)) r) k = map_of r k"
proof (induction r)
  case Nil
  show ?case by simp
next
  case (Cons kv r)
  obtain k' v where kv: "kv = (k', v)" by (cases kv)
  show ?case
  proof (cases "k' = k")
    case True
    then have "ren k' = k" using assms by simp
    then show ?thesis using kv True by simp
  next
    case False
    then have "ren k' \<noteq> k" using assms by simp
    then show ?thesis using kv False Cons.IH by simp
  qed
qed

lemma relabel_average_response_time:
  "relabel labels k = ''average response time'' \<longleftrightarrow> k = ''average response time''"
  by (auto simp: relabel_def labels_def split: if_splits)

lemma divide_row_Inr:
  assumes "divide_row fdiv row = Inr r"
  shows "\<exists>a b. map_of row ''response_latency_ms_sum'' = Some (Num a)
           \<and> map_of row ''response_latency_ms_count'' = Some (Num b)
           \<and> r = set_cell ''average response time'' (Num (fdiv a b)) row"
  using assms by (auto simp: divide_row_def split: option.splits cell.splits)

lemma store_all_sources:
  assumes "store_all f xs = Inr ys" and "y \<in> set ys"
  shows "\<exists>x \<in> set xs. f x = Inr y"
proof -
  have "list_all2 (\<lambda>x y. f x = Inr y) xs ys" using assms(1) by (rule store_all_list_all2)
  then show ?thesis using assms(2)
    by (induction rule: list_all2_induct) auto
qed

lemma output_row_average:
  "map_of (map (\<lambda>(k, v). (relabel labels k, v))
             (filter (\<lambda>(k, v). k \<notin> set raw_columns)
                (set_cell ''average response time'' x row))) ''average response time''
   = Some x"
proof -
  have "''average response time'' \<notin> set raw_columns" by (simp add: raw_columns_def)
  then show ?thesis
    by (simp add: map_of_relabelled [OF relabel_average_response_time] map_of_filter_keys
        map_of_set_cell)
qed

lemma derive_filtered_rows:
  assumes "derive_filtered fdiv merged = Inr out"
  shows "\<exists>rs. store_all (divide_row fdiv) (rows merged) = Inr rs
           \<and> rows out = map (\<lambda>r. map (\<lambda>(k, v). (relabel labels k, v))
                                   (filter (\<lambda>(k, v). k \<notin> set raw_columns) r))
                          (filter (\<lambda>r. map_of r ''pod'' \<noteq> Some (Str ''prometheus'')) rs)"
  using assms
  by (auto simp: derive_filtered_def average_response_time_def without_prometheus_def
      drop_columns_def rename_columns_def split: sum.splits if_splits)

text \<open>
  C8. Every row of the table \<open>filter_data\<close> returns comes from a row of the merged
  table, and its \<open>average response time\<close> is the quotient (by the runtime's float
  division) of that row's \<open>response_latency_ms_sum\<close> and \<open>response_latency_ms_count\<close>;
  this holds for every row, so for those with a positive count.
\<close>

theorem average_response_time_is_quotient:
  assumes "fst (filter_data merge_stage fdiv directory w) = Inr out"
  shows "\<exists>merged. merge_stage w directory = Inr merged
           \<and> (\<forall>r \<in> set (rows out). \<exists>row \<in> set (rows merged). \<exists>latency_sum latency_count.
                  map_of row ''response_latency_ms_sum'' = Some (Num latency_sum)
                \<and> map_of row ''response_latency_ms_count'' = Some (Num latency_count)
                \<and> map_of r ''average response time'' = Some (Num (fdiv latency_sum latency_count))
                \<and> r = map (\<lambda>(k, v). (relabel labels k, v))
                        (filter (\<lambda>(k, v). k \<notin> set raw_columns)
                           (set_cell ''average response time''
                              (Num (fdiv latency_sum latency_count)) row)))"
proof -
  from assms obtain merged where merged: "merge_stage w directory = Inr merged"
    and out: "derive_filtered fdiv merged = Inr out"
    by (auto simp: filter_data_def split: sum.splits)
  from derive_filtered_rows [OF out] obtain rs where
    rs: "store_all (divide_row fdiv) (rows merged) = Inr rs"
    and rows_out: "rows out = map (\<lambda>r. map (\<lambda>(k, v). (relabel labels k, v))
                                   (filter (\<lambda>(k, v). k \<notin> set raw_columns) r))
                          (filter (\<lambda>r. map_of r ''pod'' \<noteq> Some (Str ''prometheus'')) rs)"
    by blast
  have "\<exists>row \<in> set (rows merged). \<exists>a b.
            map_of row ''response_latency_ms_sum'' = Some (Num a)
          \<and> map_of row ''response_latency_ms_count'' = Some (Num b)
          \<and> map_of r ''average response time'' = Some (Num (fdiv a b))
          \<and> r = map (\<lambda>(k, v). (relabel labels k, v))
                  (filter (\<lambda>(k, v). k \<notin> set raw_columns)
                     (set_cell ''average response time'' (Num (fdiv a b)) row))"
    if "r \<in> set (rows out)" for r
  proof -
    from that rows_out obtain r' where r': "r' \<in> set rs"
      and r: "r = map (\<lambda>(k, v). (relabel labels k, v)) (filter (\<lambda>(k, v). k \<notin> set raw_columns) r')"
      by auto
    from store_all_sources [OF rs r'] obtain row where row: "row \<in> set (rows merged)"
      and div: "divide_row fdiv row = Inr r'" by blast
    from divide_row_Inr [OF div] obtain a b where
      ab: "map_of row ''response_latency_ms_sum'' = Some (Num a)"
          "map_of row ''response_latency_ms_count'' = Some (Num b)"
          "r' = set_cell ''average response time'' (Num (fdiv a b)) row"
      by blast
    have "map_of r ''average response time'' = Some (Num (fdiv a b))"
      unfolding r ab(3) by (rule output_row_average)
    then show ?thesis using row ab r by blast
  qed
  then show ?thesis using merged by blast
qed

lemma filter_data_demo:
  "fst (filter_data (\<lambda>w d. Inr merged_demo) (/) ''20210303-230654'' demo_world)
   = Inr \<lparr>columns = [''Iteration'', ''pod'', ''cpu usage'', ''cpu limit'', ''average response time''],
          rows = [[(''Iteration'', Num 1), (''pod'', Str ''webui''), (''cpu usage'', Num 40),
                   (''cpu limit'', Num 300), (''average response time'', Num (3 / 2))]]\<rparr>"
  by (simp add: filter_data_def derive_filtered_def average_response_time_def divide_row_def
      without_prometheus_def drop_columns_def rename_columns_def merged_demo_def merged_row_def
      raw_columns_def labels_def relabel_def)

theorem average_response_time_is_quotient_witness:
  "fst (filter_data (\<lambda>w d. Inr merged_demo) (/) ''20210303-230654'' demo_world)
   = Inr \<lparr>columns = [''Iteration'', ''pod'', ''cpu usage'', ''cpu limit'', ''average response time''],
          rows = [[(''Iteration'', Num 1), (''pod'', Str ''webui''), (''cpu usage'', Num 40),
                   (''cpu limit'', Num 300), (''average response time'', Num (3 / 2))]]\<rparr>
   \<and> (\<exists>row \<in> set (rows merged_demo). \<exists>latency_sum latency_count.
          map_of row ''response_latency_ms_sum'' = Some (Num latency_sum)
        \<and> map_of row ''response_latency_ms_count'' = Some (Num latency_count)
        \<and> Some (Num (3 / 2)) = Some (Num (latency_sum / latency_count)))"
proof -
  let ?r = "[(''Iteration'', Num 1), (''pod'', Str ''webui''), (''cpu usage'', Num 40),
             (''cpu limit'', Num 300), (''average response time'', Num (3 / 2 :: real))]"
  from average_response_time_is_quotient [OF filter_data_demo]
  have "\<exists>row \<in> set (rows merged_demo). \<exists>latency_sum latency_count.
            map_of row ''response_latency_ms_sum'' = Some (Num latency_sum)
          \<and> map_of row ''response_latency_ms_count'' = Some (Num latency_count)
          \<and> map_of ?r ''average response time'' = Some (Num (latency_sum / latency_count))"
    by fastforce
  then show ?thesis using filter_data_demo by simp
qed

text \<open>
  C7. When the target file exists, \<open>save_data\<close> only logs a warning: it writes nothing
  and leaves every file as it was; a run of \<open>filter_data\<close> on a directory whose filtered
  file exists leaves the files unchanged as well, whatever it computes.
\<close>

theorem save_data_keeps_existing_file:
  assumes "files w (filtered_path w directory mode) = Some old"
  shows "save_data data directory mode w = logging WARNING ''Filtered data already exists.'' w
         \<and> files (save_data data directory mode w) = files w
         \<and> (mode = ''filtered''
              \<longrightarrow> files (snd (filter_data merge_stage fdiv directory w)) = files w)"
proof -
  have skip: "save_data d directory mode w = logging WARNING ''Filtered data already exists.'' w"
    for d using assms by (simp add: save_data_def)
  have kept: "files (logging WARNING ''Filtered data already exists.'' w) = files w"
    by (simp add: logging_def)
  have "files (snd (filter_data merge_stage fdiv directory w)) = files w" if "mode = ''filtered''"
    using that skip kept by (simp add: filter_data_def split: sum.splits)
  then show ?thesis using skip kept by simp
qed

theorem save_data_keeps_existing_file_witness:
  "files filtered_world (filtered_path filtered_world ''20210303-230654'' ''filtered'')
     = Some existing_frame
   \<and> save_data merged_demo ''20210303-230654'' ''filtered'' filtered_world
     = logging WARNING ''Filtered data already exists.'' filtered_world
   \<and> files (snd (filter_data (\<lambda>w d. Inr merged_demo) (/) ''20210303-230654'' filtered_world))
       ''/app/data/filtered/20210303-230654_filtered.csv''
     = Some existing_frame"
proof -
  have there: "files filtered_world (filtered_path filtered_world ''20210303-230654'' ''filtered'')
               = Some existing_frame"
    by (simp add: filtered_world_def filtered_path_def)
  have at: "files filtered_world ''/app/data/filtered/20210303-230654_filtered.csv''
            = Some existing_frame"
    by (simp add: filtered_world_def)
  from save_data_keeps_existing_file
         [OF there, of merged_demo "\<lambda>w d. Inr merged_demo" "(/)"] there at
  show ?thesis by simp
qed

text \<open>
  A run of \<open>filter_data\<close> that returns leaves a filtered file behind (the one it found or
  the one it wrote), so a second run on the same directory changes no file.
\<close>

lemma save_data_writes_free_path:
  assumes "files w (filtered_path w directory mode) = None"
  shows "files (save_data data directory mode w) (filtered_path w directory mode) = Some data"
  using assms by (simp add: save_data_def)

lemma save_data_cwd: "cwd (save_data data directory mode w) = cwd w"
  by (simp add: save_data_def logging_def)

lemma save_data_file_present:
  "files (save_data data directory mode w) (filtered_path w directory mode) \<noteq> None"
  by (simp add: save_data_def logging_def)

lemma filter_data_keeps_files:
  assumes "files w (filtered_path w directory ''filtered'') \<noteq> None"
  shows "files (snd (filter_data merge_stage fdiv directory w)) = files w"
  using assms by (auto simp: filter_data_def save_data_def logging_def split: sum.splits)

lemma filter_data_rerun:
  assumes "fst (filter_data merge_stage fdiv directory w) = Inr out"
  shows "files (snd (filter_data merge_stage' fdiv' directory
                       (snd (filter_data merge_stage fdiv directory w))))
         = files (snd (filter_data merge_stage fdiv directory w))"
proof -
  let ?w' = "snd (filter_data merge_stage fdiv directory w)"
  from assms have w': "?w' = save_data out directory ''filtered'' w"
    by (auto simp: filter_data_def split: sum.splits)
  then have "filtered_path ?w' directory ''filtered'' = filtered_path w directory ''filtered''"
    by (simp add: filtered_path_def save_data_cwd)
  then have "files ?w' (filtered_path ?w' directory ''filtered'') \<noteq> None"
    using w' by (simp add: save_data_file_present)
  then show ?thesis by (rule filter_data_keeps_files)
qed

end
